theory Spec2Isabelle
  imports Main
begin

section \<open>Mark ledger: intervals derived from marks (TimelineChart.tsx)\<close>

text \<open>
  Modelled from the spec: the declaration of \<open>SubChannelMark\<close> lives in the module
  \<open>@/types\<close>, which is not among the sources. The spec gives a mark as
  \<open>{ action: start | pause, headTimeMs: number }\<close>; times are integer milliseconds.
\<close>

datatype MarkAction = Start | Pause

record SubChannelMark =
  action :: MarkAction
  headTimeMs :: int

text \<open>The interface \<open>TimelineInterval\<close> of TimelineChart.tsx.\<close>

record TimelineInterval =
  startMs :: int
  endMs :: int

text \<open>
  One pass of the \<open>for (const mark of marks)\<close> loop of \<open>calculateIntervals\<close>. The loop
  state is the pair of the local array \<open>intervals\<close> (here \<open>ivs\<close>) and the local
  \<open>startMs\<close> (here \<open>opn\<close>, with \<open>None\<close> for \<open>null\<close>); \<open>push\<close> appends at the end.
\<close>

fun loopBody ::
  "TimelineInterval list \<times> int option \<Rightarrow> SubChannelMark \<Rightarrow> TimelineInterval list \<times> int option"
where
  "loopBody (ivs, opn) mark =
     (if action mark = Start then (ivs, Some (headTimeMs mark))
      else if action mark = Pause then
        (case opn of
           Some s \<Rightarrow> (ivs @ [\<lparr>startMs = s, endMs = headTimeMs mark\<rparr>], None)
         | None \<Rightarrow> (ivs, opn))
      else (ivs, opn))"

definition calculateIntervals ::
  "SubChannelMark list \<Rightarrow> bool \<Rightarrow> int \<Rightarrow> TimelineInterval list"
where
  "calculateIntervals marks currentlyRunning headElapsedMs =
     (case foldl loopBody ([], None) marks of
        (ivs, opn) \<Rightarrow>
          (case opn of
             Some s \<Rightarrow>
               if currentlyRunning then ivs @ [\<lparr>startMs = s, endMs = headElapsedMs\<rparr>]
               else ivs
           | None \<Rightarrow> ivs))"

subsection \<open>The scan as the spec words it\<close>

text \<open>
  \<open>deriveIntervals\<close> follows the words of the spec, not the code: a left-to-right scan
  with an open start. A \<open>start\<close> mark sets the open start; a \<open>pause\<close> mark seen while a
  start is open emits the interval and clears the open start; at the end an open start
  gives one more interval up to the head time when the sub channel is running, and
  nothing otherwise.
\<close>

fun scanFrom ::
  "int option \<Rightarrow> SubChannelMark list \<Rightarrow> bool \<Rightarrow> int \<Rightarrow> TimelineInterval list"
where
  "scanFrom opn [] running h =
     (case opn of
        Some s \<Rightarrow> (if running then [\<lparr>startMs = s, endMs = h\<rparr>] else [])
      | None \<Rightarrow> [])"
| "scanFrom opn (m # ms) running h =
     (case action m of
        Start \<Rightarrow> scanFrom (Some (headTimeMs m)) ms running h
      | Pause \<Rightarrow>
          (case opn of
             Some s \<Rightarrow> \<lparr>startMs = s, endMs = headTimeMs m\<rparr> # scanFrom None ms running h
           | None \<Rightarrow> scanFrom None ms running h))"

definition deriveIntervals ::
  "SubChannelMark list \<Rightarrow> bool \<Rightarrow> int \<Rightarrow> TimelineInterval list"
where
  "deriveIntervals marks running h = scanFrom None marks running h"

subsection \<open>Shapes of mark lists and of interval lists\<close>

text \<open>No two consecutive marks have the same action.\<close>

fun noRepeat :: "SubChannelMark list \<Rightarrow> bool" where
  "noRepeat (a # b # rest) = (action a \<noteq> action b \<and> noRepeat (b # rest))"
| "noRepeat _ = True"

text \<open>A mark list alternates: its first mark, when there is one, is a \<open>start\<close>, and no
  two consecutive marks have the same action.\<close>

definition alternates :: "SubChannelMark list \<Rightarrow> bool" where
  "alternates marks =
     ((case marks of [] \<Rightarrow> True | m # _ \<Rightarrow> action m = Start) \<and> noRepeat marks)"

text \<open>Every interval ends no earlier than it starts.\<close>

definition endsAfterStarts :: "TimelineInterval list \<Rightarrow> bool" where
  "endsAfterStarts ivs = list_all (\<lambda>i. startMs i \<le> endMs i) ivs"

text \<open>Chronological order: the starts do not decrease along the list.\<close>

definition chronological :: "TimelineInterval list \<Rightarrow> bool" where
  "chronological ivs = sorted_wrt (\<lambda>a b. startMs a \<le> startMs b) ivs"

text \<open>Pairwise non-overlapping: an interval ends before any later one starts.\<close>

definition nonOverlapping :: "TimelineInterval list \<Rightarrow> bool" where
  "nonOverlapping ivs = sorted_wrt (\<lambda>a b. endMs a \<le> startMs b) ivs"

text \<open>The head times recorded in the marks do not decrease along the list, and, when
  the sub channel is running, the current head time is not below any of them.\<close>

definition timesAscend :: "SubChannelMark list \<Rightarrow> bool \<Rightarrow> int \<Rightarrow> bool" where
  "timesAscend marks running h =
     (sorted (map headTimeMs marks) \<and>
      (running \<longrightarrow> list_all (\<lambda>m. headTimeMs m \<le> h) marks))"

text \<open>The number of completed start-to-pause pairs of a mark list: the places where a
  \<open>start\<close> mark is directly followed by a \<open>pause\<close> mark.\<close>

fun completedPairs :: "SubChannelMark list \<Rightarrow> nat" where
  "completedPairs (a # b # rest) =
     (if action a = Start \<and> action b = Pause then Suc (completedPairs rest)
      else completedPairs (b # rest))"
| "completedPairs _ = 0"

text \<open>The last mark is an unmatched \<open>start\<close>.\<close>

definition endsOpen :: "SubChannelMark list \<Rightarrow> bool" where
  "endsOpen marks = (marks \<noteq> [] \<and> action (last marks) = Start)"


subsection \<open>The same function with its arrays as explicit state\<close>

text \<open>
  The state a call of \<open>calculateIntervals\<close> works on: the array \<open>marks\<close> it was handed
  (shared with the caller), and its locals \<open>intervals\<close> and \<open>startMs\<close>. The function
  body names nothing else.
\<close>

record calcState =
  marksArr :: "SubChannelMark list"
  intervalsArr :: "TimelineInterval list"
  startMsVar :: "int option"

text \<open>The body of the loop as a state transformer: \<open>intervals.push\<close> and the
  assignments to \<open>startMs\<close> are its only writes.\<close>

definition loopStep :: "SubChannelMark \<Rightarrow> calcState \<Rightarrow> calcState" where
  "loopStep mark st =
     (if action mark = Start then st\<lparr>startMsVar := Some (headTimeMs mark)\<rparr>
      else if action mark = Pause then
        (case startMsVar st of
           Some s \<Rightarrow>
             st\<lparr>intervalsArr := intervalsArr st @ [\<lparr>startMs = s, endMs = headTimeMs mark\<rparr>],
                startMsVar := None\<rparr>
         | None \<Rightarrow> st)
      else st)"

text \<open>\<open>for (const mark of marks)\<close>: the array iterator reads the live array at index
  \<open>i\<close> and stops when \<open>i\<close> reaches its current length.\<close>

function forOf :: "nat \<Rightarrow> calcState \<Rightarrow> calcState" where
  "forOf i st =
     (if i < length (marksArr st) then forOf (Suc i) (loopStep (marksArr st ! i) st) else st)"
  by pat_completeness auto
termination
  by (relation "measure (\<lambda>(i, st). length (marksArr st) - i)")
     (auto simp: loopStep_def split: option.split)

declare forOf.simps [simp del]

text \<open>A whole call: the returned array, and the array \<open>marks\<close> as the call leaves it.\<close>

definition calculateIntervalsRun ::
  "SubChannelMark list \<Rightarrow> bool \<Rightarrow> int \<Rightarrow> TimelineInterval list \<times> SubChannelMark list"
where
  "calculateIntervalsRun marks currentlyRunning headElapsedMs =
     (let st = forOf 0 \<lparr>marksArr = marks, intervalsArr = [], startMsVar = None\<rparr>;
          st' = (case startMsVar st of
                   Some s \<Rightarrow>
                     if currentlyRunning
                     then st\<lparr>intervalsArr :=
                            intervalsArr st @ [\<lparr>startMs = s, endMs = headElapsedMs\<rparr>]\<rparr>
                     else st
                 | None \<Rightarrow> st)
      in (intervalsArr st', marksArr st'))"

section \<open>The duration-based timeline builder (ImportTimeline.tsx)\<close>

subsection \<open>JavaScript numbers that hold integers\<close>

text \<open>
  The minutes of the builder are JavaScript numbers, that is, doubles. Every number the
  builder stores comes from \<open>parseInt\<close>, from the literals 0, 1, 5 and 60, and from
  \<open>Math.max\<close>, \<open>Math.min\<close>, \<open>+ 1\<close>, \<open>- 1\<close> and \<open>+ 5\<close> on such numbers: it is an
  integer or an infinity (\<open>parseInt\<close> gives an infinity for an integer beyond the
  doubles), and never \<open>NaN\<close>.
\<close>

datatype JsNum = NegInf | Fin int | PosInf

text \<open>The number of binary digits of a positive integer (0 for the others).\<close>

function bitLen :: "int \<Rightarrow> nat" where
  "bitLen n = (if n \<le> 0 then 0 else Suc (bitLen (n div 2)))"
  by pat_completeness auto
termination
  by (relation "measure nat") auto

declare bitLen.simps [simp del]

text \<open>
  Every integer up to 2 to the power 53 is a double. A larger one lies between two
  neighbouring doubles, which are multiples of \<open>q\<close>, the power of 2 that leaves 53 binary
  digits; it is rounded to the nearer one, and to the one with the even significand when
  both are equally near.
\<close>

definition maxExact :: int where
  "maxExact = 2 ^ 53"

definition roundToDouble :: "int \<Rightarrow> int" where
  "roundToDouble n =
     (if n \<le> maxExact then n
      else (let q = 2 ^ (bitLen n - 53); m = n div q; r = n mod q
            in if 2 * r < q then m * q
               else if q < 2 * r then (m + 1) * q
               else if even m then m * q else (m + 1) * q))"

text \<open>The number that an arithmetic result becomes: the magnitude is rounded, and the
  result is an infinity when the rounded magnitude reaches 2 to the power 1024, that
  is, when it has more than 1024 binary digits.\<close>

definition toNumber :: "int \<Rightarrow> JsNum" where
  "toNumber x =
     (let r = roundToDouble \<bar>x\<bar>
      in if 1024 < bitLen r then (if x < 0 then NegInf else PosInf)
         else Fin (sgn x * r))"

text \<open>\<open>x + k\<close> for an integer literal \<open>k\<close> (and \<open>x - 1\<close> as \<open>x + (-1)\<close>): the exact sum,
  rounded; an infinity stays what it is.\<close>

fun jsPlus :: "JsNum \<Rightarrow> int \<Rightarrow> JsNum" where
  "jsPlus NegInf k = NegInf"
| "jsPlus PosInf k = PosInf"
| "jsPlus (Fin a) k = toNumber (a + k)"

text \<open>The order of the numbers, and \<open>Math.max\<close> and \<open>Math.min\<close> of two numbers.\<close>

fun jsLe :: "JsNum \<Rightarrow> JsNum \<Rightarrow> bool" where
  "jsLe NegInf y = True"
| "jsLe x PosInf = True"
| "jsLe (Fin a) (Fin b) = (a \<le> b)"
| "jsLe x y = False"

definition mathMax :: "JsNum \<Rightarrow> JsNum \<Rightarrow> JsNum" where
  "mathMax a b = (if jsLe a b then b else a)"

definition mathMin :: "JsNum \<Rightarrow> JsNum \<Rightarrow> JsNum" where
  "mathMin a b = (if jsLe a b then a else b)"

subsection \<open>The interfaces\<close>

text \<open>
  The interfaces of the builder. Its interval interface is also called
  \<open>TimelineInterval\<close> in the source; it is \<open>ImportInterval\<close> here, and the fields
  \<open>id\<close>, \<open>name\<close> and \<open>expanded\<close> carry the name of their interface.
\<close>

record ImportInterval =
  intervalId :: string
  startMin :: JsNum
  endMin :: JsNum

record ImportSubChannel =
  subId :: string
  subName :: string
  intervals :: "ImportInterval list"
  subExpanded :: bool

record ImportHeadChannel =
  headId :: string
  headName :: string
  totalMinutes :: JsNum
  subChannels :: "ImportSubChannel list"
  headExpanded :: bool

text \<open>\<open>Partial<T>\<close>: each field is present (\<open>Some\<close>) or absent (\<open>None\<close>), and the spread
  \<open>{ ...x, ...updates }\<close> takes the fields that are present from \<open>updates\<close>.\<close>

record IntervalUpdates =
  newIntervalId :: "string option"
  newStartMin :: "JsNum option"
  newEndMin :: "JsNum option"

record SubUpdates =
  newSubId :: "string option"
  newSubName :: "string option"
  newIntervals :: "ImportInterval list option"
  newSubExpanded :: "bool option"

record HeadUpdates =
  newHeadId :: "string option"
  newHeadName :: "string option"
  newTotalMinutes :: "JsNum option"
  newSubChannels :: "ImportSubChannel list option"
  newHeadExpanded :: "bool option"

definition orKeep :: "'a option \<Rightarrow> 'a \<Rightarrow> 'a" where
  "orKeep u old = (case u of Some v \<Rightarrow> v | None \<Rightarrow> old)"

definition spreadInterval :: "ImportInterval \<Rightarrow> IntervalUpdates \<Rightarrow> ImportInterval" where
  "spreadInterval i u =
     \<lparr>intervalId = orKeep (newIntervalId u) (intervalId i),
      startMin = orKeep (newStartMin u) (startMin i),
      endMin = orKeep (newEndMin u) (endMin i)\<rparr>"

definition spreadSub :: "ImportSubChannel \<Rightarrow> SubUpdates \<Rightarrow> ImportSubChannel" where
  "spreadSub s u =
     \<lparr>subId = orKeep (newSubId u) (subId s),
      subName = orKeep (newSubName u) (subName s),
      intervals = orKeep (newIntervals u) (intervals s),
      subExpanded = orKeep (newSubExpanded u) (subExpanded s)\<rparr>"

definition spreadHead :: "ImportHeadChannel \<Rightarrow> HeadUpdates \<Rightarrow> ImportHeadChannel" where
  "spreadHead h u =
     \<lparr>headId = orKeep (newHeadId u) (headId h),
      headName = orKeep (newHeadName u) (headName h),
      totalMinutes = orKeep (newTotalMinutes u) (totalMinutes h),
      subChannels = orKeep (newSubChannels u) (subChannels h),
      headExpanded = orKeep (newHeadExpanded u) (headExpanded h)\<rparr>"

subsection \<open>Numbers as text\<close>

text \<open>\<open>toString\<close> of a natural number, in decimal.\<close>

definition digitChar :: "nat \<Rightarrow> char" where
  "digitChar d = char_of (48 + d)"

function natToString :: "nat \<Rightarrow> string" where
  "natToString n =
     (if n < 10 then [digitChar n] else natToString (n div 10) @ [digitChar (n mod 10)])"
  by pat_completeness auto
termination
  by (relation "measure id") auto

declare natToString.simps [simp del]

subsection \<open>The operations on the collection of head channels\<close>

text \<open>
  Each operation is the argument its source function passes to \<open>setHeadChannels\<close>, as a
  function of the current collection \<open>hcs\<close>. The result of \<open>generateId()\<close> (a time stamp
  and a random suffix) is an argument, \<open>fresh\<close>; the source calls it once for each
  element that matches the given ids.
\<close>

definition addHeadChannel :: "string \<Rightarrow> ImportHeadChannel list \<Rightarrow> ImportHeadChannel list" where
  "addHeadChannel fresh hcs =
     hcs @ [\<lparr>headId = fresh, headName = ''Head '' @ natToString (length hcs + 1),
             totalMinutes = Fin 60, subChannels = [], headExpanded = True\<rparr>]"

definition deleteHeadChannel :: "string \<Rightarrow> ImportHeadChannel list \<Rightarrow> ImportHeadChannel list" where
  "deleteHeadChannel hid hcs = filter (\<lambda>h. headId h \<noteq> hid) hcs"

definition updateHeadChannel ::
  "string \<Rightarrow> HeadUpdates \<Rightarrow> ImportHeadChannel list \<Rightarrow> ImportHeadChannel list"
where
  "updateHeadChannel hid updates hcs =
     map (\<lambda>h. if headId h = hid then spreadHead h updates else h) hcs"

definition toggleHeadExpand :: "string \<Rightarrow> ImportHeadChannel list \<Rightarrow> ImportHeadChannel list" where
  "toggleHeadExpand hid hcs =
     map (\<lambda>h. if headId h = hid then h\<lparr>headExpanded := \<not> headExpanded h\<rparr> else h) hcs"

definition addSubChannel ::
  "string \<Rightarrow> string \<Rightarrow> ImportHeadChannel list \<Rightarrow> ImportHeadChannel list"
where
  "addSubChannel hid fresh hcs =
     map (\<lambda>h. if headId h \<noteq> hid then h
              else h\<lparr>subChannels := subChannels h @
                     [\<lparr>subId = fresh,
                       subName = ''Sub '' @ natToString (length (subChannels h) + 1),
                       intervals = [], subExpanded = True\<rparr>]\<rparr>) hcs"

definition deleteSubChannel ::
  "string \<Rightarrow> string \<Rightarrow> ImportHeadChannel list \<Rightarrow> ImportHeadChannel list"
where
  "deleteSubChannel hid sid hcs =
     map (\<lambda>h. if headId h \<noteq> hid then h
              else h\<lparr>subChannels := filter (\<lambda>s. subId s \<noteq> sid) (subChannels h)\<rparr>) hcs"

definition updateSubChannel ::
  "string \<Rightarrow> string \<Rightarrow> SubUpdates \<Rightarrow> ImportHeadChannel list \<Rightarrow> ImportHeadChannel list"
where
  "updateSubChannel hid sid updates hcs =
     map (\<lambda>h. if headId h \<noteq> hid then h
              else h\<lparr>subChannels :=
                     map (\<lambda>s. if subId s = sid then spreadSub s updates else s)
                       (subChannels h)\<rparr>) hcs"

definition toggleSubExpand ::
  "string \<Rightarrow> string \<Rightarrow> ImportHeadChannel list \<Rightarrow> ImportHeadChannel list"
where
  "toggleSubExpand hid sid hcs =
     map (\<lambda>h. if headId h \<noteq> hid then h
              else h\<lparr>subChannels :=
                     map (\<lambda>s. if subId s = sid then s\<lparr>subExpanded := \<not> subExpanded s\<rparr> else s)
                       (subChannels h)\<rparr>) hcs"

definition addInterval ::
  "string \<Rightarrow> string \<Rightarrow> string \<Rightarrow> ImportHeadChannel list \<Rightarrow> ImportHeadChannel list"
where
  "addInterval hid sid fresh hcs =
     map (\<lambda>h. if headId h \<noteq> hid then h
              else h\<lparr>subChannels :=
                     map (\<lambda>s. if subId s \<noteq> sid then s
                              else (let lastEnd = (if length (intervals s) > 0
                                                   then endMin (last (intervals s)) else Fin 0)
                                    in s\<lparr>intervals := intervals s @
                                          [\<lparr>intervalId = fresh, startMin = lastEnd,
                                            endMin = mathMin (jsPlus lastEnd 5)
                                                       (totalMinutes h)\<rparr>]\<rparr>))
                       (subChannels h)\<rparr>) hcs"

definition deleteInterval ::
  "string \<Rightarrow> string \<Rightarrow> string \<Rightarrow> ImportHeadChannel list \<Rightarrow> ImportHeadChannel list"
where
  "deleteInterval hid sid iid hcs =
     map (\<lambda>h. if headId h \<noteq> hid then h
              else h\<lparr>subChannels :=
                     map (\<lambda>s. if subId s \<noteq> sid then s
                              else s\<lparr>intervals :=
                                     filter (\<lambda>i. intervalId i \<noteq> iid) (intervals s)\<rparr>)
                       (subChannels h)\<rparr>) hcs"

definition updateInterval ::
  "string \<Rightarrow> string \<Rightarrow> string \<Rightarrow> IntervalUpdates \<Rightarrow> ImportHeadChannel list
     \<Rightarrow> ImportHeadChannel list"
where
  "updateInterval hid sid iid updates hcs =
     map (\<lambda>h. if headId h \<noteq> hid then h
              else h\<lparr>subChannels :=
                     map (\<lambda>s. if subId s \<noteq> sid then s
                              else s\<lparr>intervals :=
                                     map (\<lambda>i. if intervalId i = iid then spreadInterval i updates
                                               else i)
                                       (intervals s)\<rparr>)
                       (subChannels h)\<rparr>) hcs"

subsection \<open>The input handlers\<close>

text \<open>\<open>parseInt(text) || d\<close>: the result of \<open>parseInt\<close> is a number or \<open>NaN\<close> (\<open>None\<close>), and
  \<open>||\<close> takes \<open>d\<close> when its left operand is \<open>NaN\<close> or \<open>0\<close>.\<close>

definition numOr :: "JsNum option \<Rightarrow> JsNum \<Rightarrow> JsNum" where
  "numOr parsed d = (case parsed of None \<Rightarrow> d | Some n \<Rightarrow> if n = Fin 0 then d else n)"

text \<open>
  What the user can do to the builder. A control belongs to a rendered head channel, sub
  channel or interval, named here by its position in the lists that the component maps
  over; its handler reads the ids (and the bounds) of that rendered element. A text
  input hands over its new text, a number input the result of \<open>parseInt\<close> on it:
  \<open>None\<close> for \<open>NaN\<close>, and otherwise a number, where every integer and both infinities are
  admitted although \<open>parseInt\<close> gives only those integers that are doubles. The controls
  hidden while a channel is collapsed are not told apart: the events below include all
  that the user can cause.
\<close>

datatype BuilderEvent =
    AddHeadClick string
  | ToggleHeadClick nat
  | HeadNameChange nat string
  | TotalMinutesChange nat "JsNum option"
  | DeleteHeadClick nat
  | AddSubClick nat string
  | ToggleSubClick nat nat
  | SubNameChange nat nat string
  | DeleteSubClick nat nat
  | AddIntervalClick nat nat string
  | StartMinChange nat nat nat "JsNum option"
  | EndMinChange nat nat nat "JsNum option"
  | DeleteIntervalClick nat nat nat

definition nthOpt :: "'a list \<Rightarrow> nat \<Rightarrow> 'a option" where
  "nthOpt xs n = (if n < length xs then Some (xs ! n) else None)"

definition onHead ::
  "ImportHeadChannel list \<Rightarrow> nat \<Rightarrow> (ImportHeadChannel \<Rightarrow> ImportHeadChannel list)
     \<Rightarrow> ImportHeadChannel list"
where
  "onHead hcs hi f = (case nthOpt hcs hi of None \<Rightarrow> hcs | Some head \<Rightarrow> f head)"

definition onSub ::
  "ImportHeadChannel list \<Rightarrow> nat \<Rightarrow> nat
     \<Rightarrow> (ImportHeadChannel \<Rightarrow> ImportSubChannel \<Rightarrow> ImportHeadChannel list)
     \<Rightarrow> ImportHeadChannel list"
where
  "onSub hcs hi si f =
     onHead hcs hi (\<lambda>head.
       case nthOpt (subChannels head) si of None \<Rightarrow> hcs | Some sub \<Rightarrow> f head sub)"

definition onInterval ::
  "ImportHeadChannel list \<Rightarrow> nat \<Rightarrow> nat \<Rightarrow> nat
     \<Rightarrow> (ImportHeadChannel \<Rightarrow> ImportSubChannel \<Rightarrow> ImportInterval \<Rightarrow> ImportHeadChannel list)
     \<Rightarrow> ImportHeadChannel list"
where
  "onInterval hcs hi si ii f =
     onSub hcs hi si (\<lambda>head sub.
       case nthOpt (intervals sub) ii of None \<Rightarrow> hcs | Some interval \<Rightarrow> f head sub interval)"

definition noHeadUpdates :: HeadUpdates where
  "noHeadUpdates =
     \<lparr>newHeadId = None, newHeadName = None, newTotalMinutes = None, newSubChannels = None,
      newHeadExpanded = None\<rparr>"

definition noSubUpdates :: SubUpdates where
  "noSubUpdates =
     \<lparr>newSubId = None, newSubName = None, newIntervals = None, newSubExpanded = None\<rparr>"

definition noIntervalUpdates :: IntervalUpdates where
  "noIntervalUpdates = \<lparr>newIntervalId = None, newStartMin = None, newEndMin = None\<rparr>"

fun handleEvent :: "BuilderEvent \<Rightarrow> ImportHeadChannel list \<Rightarrow> ImportHeadChannel list" where
  "handleEvent (AddHeadClick fresh) hcs = addHeadChannel fresh hcs"
| "handleEvent (ToggleHeadClick hi) hcs =
     onHead hcs hi (\<lambda>head. toggleHeadExpand (headId head) hcs)"
| "handleEvent (HeadNameChange hi newText) hcs =
     onHead hcs hi (\<lambda>head.
       updateHeadChannel (headId head) (noHeadUpdates\<lparr>newHeadName := Some newText\<rparr>) hcs)"
| "handleEvent (TotalMinutesChange hi parsed) hcs =
     onHead hcs hi (\<lambda>head.
       updateHeadChannel (headId head)
         (noHeadUpdates\<lparr>newTotalMinutes := Some (mathMax (Fin 1) (numOr parsed (Fin 1)))\<rparr>)
         hcs)"
| "handleEvent (DeleteHeadClick hi) hcs =
     onHead hcs hi (\<lambda>head. deleteHeadChannel (headId head) hcs)"
| "handleEvent (AddSubClick hi fresh) hcs =
     onHead hcs hi (\<lambda>head. addSubChannel (headId head) fresh hcs)"
| "handleEvent (ToggleSubClick hi si) hcs =
     onSub hcs hi si (\<lambda>head sub. toggleSubExpand (headId head) (subId sub) hcs)"
| "handleEvent (SubNameChange hi si newText) hcs =
     onSub hcs hi si (\<lambda>head sub.
       updateSubChannel (headId head) (subId sub) (noSubUpdates\<lparr>newSubName := Some newText\<rparr>) hcs)"
| "handleEvent (DeleteSubClick hi si) hcs =
     onSub hcs hi si (\<lambda>head sub. deleteSubChannel (headId head) (subId sub) hcs)"
| "handleEvent (AddIntervalClick hi si fresh) hcs =
     onSub hcs hi si (\<lambda>head sub. addInterval (headId head) (subId sub) fresh hcs)"
| "handleEvent (StartMinChange hi si ii parsed) hcs =
     onInterval hcs hi si ii (\<lambda>head sub interval.
       updateInterval (headId head) (subId sub) (intervalId interval)
         (noIntervalUpdates\<lparr>newStartMin :=
            Some (mathMax (Fin 0)
                    (mathMin (numOr parsed (Fin 0)) (jsPlus (endMin interval) (- 1))))\<rparr>) hcs)"
| "handleEvent (EndMinChange hi si ii parsed) hcs =
     onInterval hcs hi si ii (\<lambda>head sub interval.
       updateInterval (headId head) (subId sub) (intervalId interval)
         (noIntervalUpdates\<lparr>newEndMin :=
            Some (mathMax (jsPlus (startMin interval) 1)
                    (mathMin (numOr parsed (Fin 1)) (totalMinutes head)))\<rparr>) hcs)"
| "handleEvent (DeleteIntervalClick hi si ii) hcs =
     onInterval hcs hi si ii (\<lambda>head sub interval.
       deleteInterval (headId head) (subId sub) (intervalId interval) hcs)"

text \<open>The builder starts with no head channel; \<open>runEvents\<close> is its state after a
  sequence of events.\<close>

definition runEvents :: "BuilderEvent list \<Rightarrow> ImportHeadChannel list" where
  "runEvents es = foldl (\<lambda>hcs e. handleEvent e hcs) [] es"

subsection \<open>Bounds of the intervals\<close>

text \<open>An interval from \<open>a\<close> to \<open>b\<close> is at least one unit wide: \<open>a + 1 \<le> b\<close>, the sum
  being exact.\<close>

fun oneUnitWide :: "JsNum \<Rightarrow> JsNum \<Rightarrow> bool" where
  "oneUnitWide (Fin a) (Fin b) = (a + 1 \<le> b)"
| "oneUnitWide (Fin a) PosInf = True"
| "oneUnitWide x y = False"

text \<open>The bounds that the spec asks of every interval of every sub channel of a head
  channel.\<close>

definition validInterval :: "ImportHeadChannel \<Rightarrow> ImportInterval \<Rightarrow> bool" where
  "validInterval h i =
     (jsLe (Fin 0) (startMin i) \<and> oneUnitWide (startMin i) (endMin i)
      \<and> jsLe (endMin i) (totalMinutes h))"

definition allValid :: "ImportHeadChannel list \<Rightarrow> bool" where
  "allValid hcs =
     list_all (\<lambda>h. list_all (\<lambda>s. list_all (validInterval h) (intervals s)) (subChannels h)) hcs"

text \<open>Bounds that hold in every state: a head channel lasts at least a minute, and no
  interval starts or ends before 0.\<close>

definition okInterval :: "ImportInterval \<Rightarrow> bool" where
  "okInterval i = (jsLe (Fin 0) (startMin i) \<and> jsLe (Fin 0) (endMin i))"

definition okSub :: "ImportSubChannel \<Rightarrow> bool" where
  "okSub s = list_all okInterval (intervals s)"

definition okHead :: "ImportHeadChannel \<Rightarrow> bool" where
  "okHead h = (jsLe (Fin 1) (totalMinutes h) \<and> list_all okSub (subChannels h))"

definition boundedBelow :: "ImportHeadChannel list \<Rightarrow> bool" where
  "boundedBelow hcs = list_all okHead hcs"

text \<open>Presence of ids in a collection.\<close>

definition hasHead :: "ImportHeadChannel list \<Rightarrow> string \<Rightarrow> bool" where
  "hasHead hcs hid = list_ex (\<lambda>h. headId h = hid) hcs"

definition hasSub :: "ImportHeadChannel list \<Rightarrow> string \<Rightarrow> string \<Rightarrow> bool" where
  "hasSub hcs hid sid =
     list_ex (\<lambda>h. headId h = hid \<and> list_ex (\<lambda>s. subId s = sid) (subChannels h)) hcs"

definition hasInterval :: "ImportHeadChannel list \<Rightarrow> string \<Rightarrow> string \<Rightarrow> string \<Rightarrow> bool" where
  "hasInterval hcs hid sid iid =
     list_ex (\<lambda>h. headId h = hid \<and>
        list_ex (\<lambda>s. subId s = sid \<and> list_ex (\<lambda>i. intervalId i = iid) (intervals s))
          (subChannels h)) hcs"


text \<open>The interval shown at a position, and the positions that show one.\<close>

definition validPos :: "ImportHeadChannel list \<Rightarrow> nat \<Rightarrow> nat \<Rightarrow> nat \<Rightarrow> bool" where
  "validPos hcs hi si ii =
     (hi < length hcs \<and> si < length (subChannels (hcs ! hi))
      \<and> ii < length (intervals (subChannels (hcs ! hi) ! si)))"

definition intervalAt :: "ImportHeadChannel list \<Rightarrow> nat \<Rightarrow> nat \<Rightarrow> nat \<Rightarrow> ImportInterval" where
  "intervalAt hcs hi si ii = intervals (subChannels (hcs ! hi) ! si) ! ii"

text \<open>The value the user attempts to set: the parsed number, or 1 when parsing fails.\<close>

definition attemptedValue :: "JsNum option \<Rightarrow> JsNum" where
  "attemptedValue parsed = (case parsed of None \<Rightarrow> Fin 1 | Some n \<Rightarrow> n)"

text \<open>The largest integer \<open>n\<close> for which \<open>n + 1\<close> is still exact
  (\<open>Number.MAX_SAFE_INTEGER\<close>).\<close>

definition maxSafeInteger :: int where
  "maxSafeInteger = 2 ^ 53 - 1"

text \<open>A sequence of events and the state it leads to, for the examples below.\<close>

definition sampleHeads :: "ImportHeadChannel list" where
  "sampleHeads =
     [\<lparr>headId = ''h1'', headName = ''Head 1'', totalMinutes = Fin 60,
       subChannels =
         [\<lparr>subId = ''s1'', subName = ''Sub 1'',
           intervals = [\<lparr>intervalId = ''i1'', startMin = Fin 10, endMin = Fin 20\<rparr>],
           subExpanded = True\<rparr>],
       headExpanded = True\<rparr>]"

definition sampleEvents :: "BuilderEvent list" where
  "sampleEvents =
     [AddHeadClick ''h1'', AddSubClick 0 ''s1'', AddIntervalClick 0 0 ''i1'',
      EndMinChange 0 0 0 (Some (Fin 20)), StartMinChange 0 0 0 (Some (Fin 10))]"


text \<open>The events after which an edit of the end of the interval to 5 is rounded.\<close>

definition roundedEvents :: "BuilderEvent list" where
  "roundedEvents =
     [AddHeadClick ''h1'', AddSubClick 0 ''s1'', AddIntervalClick 0 0 ''i1'',
      TotalMinutesChange 0 (Some (Fin 9007199254740994)),
      EndMinChange 0 0 0 (Some (Fin 9007199254740994)),
      StartMinChange 0 0 0 (Some (Fin 9007199254740992))]"

section \<open>The clock-based builder with cutoff timers\<close>

text \<open>
  The interfaces of the clock-based builder; they have the names of the duration-based
  ones in the source, and are told apart here by the prefix \<open>Clock\<close>. A time is a text
  \<open>HH:MM\<close>. The flag \<open>isCutoff\<close> is optional: \<open>None\<close> is a sub channel without the field.
\<close>

record ClockInterval =
  clockIntervalId :: string
  startTime :: string
  endTime :: string

record ClockSubChannel =
  clockSubId :: string
  clockSubName :: string
  clockIntervals :: "ClockInterval list"
  clockSubExpanded :: bool
  isCutoff :: "bool option"

record ClockHeadChannel =
  clockHeadId :: string
  clockHeadName :: string
  headStartTime :: string
  headEndTime :: string
  clockSubChannels :: "ClockSubChannel list"
  clockHeadExpanded :: bool

subsection \<open>Numbers that may be NaN\<close>

text \<open>
  A number computed from a text can be \<open>NaN\<close>. Such a number is an \<open>int option\<close>, with
  \<open>None\<close> for \<open>NaN\<close>: arithmetic on \<open>NaN\<close> gives \<open>NaN\<close>, \<open>Math.max\<close> of \<open>NaN\<close> is
  \<open>NaN\<close>, and a comparison with \<open>NaN\<close> is false.
\<close>

definition numAdd :: "int option \<Rightarrow> int option \<Rightarrow> int option" where
  "numAdd a b =
     (case a of None \<Rightarrow> None | Some x \<Rightarrow> (case b of None \<Rightarrow> None | Some y \<Rightarrow> Some (x + y)))"

definition numSub :: "int option \<Rightarrow> int option \<Rightarrow> int option" where
  "numSub a b =
     (case a of None \<Rightarrow> None | Some x \<Rightarrow> (case b of None \<Rightarrow> None | Some y \<Rightarrow> Some (x - y)))"

definition numMul :: "int option \<Rightarrow> int option \<Rightarrow> int option" where
  "numMul a b =
     (case a of None \<Rightarrow> None | Some x \<Rightarrow> (case b of None \<Rightarrow> None | Some y \<Rightarrow> Some (x * y)))"

definition numMax :: "int option \<Rightarrow> int option \<Rightarrow> int option" where
  "numMax a b =
     (case a of None \<Rightarrow> None | Some x \<Rightarrow> (case b of None \<Rightarrow> None | Some y \<Rightarrow> Some (max x y)))"

definition numLe :: "int option \<Rightarrow> int option \<Rightarrow> bool" where
  "numLe a b =
     (case a of None \<Rightarrow> False | Some x \<Rightarrow> (case b of None \<Rightarrow> False | Some y \<Rightarrow> x \<le> y))"

subsection \<open>Texts and numbers\<close>

text \<open>
  The part of \<open>Number(text)\<close> that the builder meets: the empty text is 0, and a decimal
  numeral, with or without a sign, is its value. Any other text is \<open>NaN\<close> here;
  \<open>Number\<close> also reads blanks, fractions, exponents and other radixes, which neither a
  time input nor \<open>minutesToTime\<close> writes.
\<close>

definition isDigit :: "char \<Rightarrow> bool" where
  "isDigit c = (48 \<le> (of_char c :: nat) \<and> (of_char c :: nat) \<le> 57)"

definition digitsValue :: "string \<Rightarrow> nat" where
  "digitsValue s = foldl (\<lambda>acc c. 10 * acc + ((of_char c :: nat) - 48)) 0 s"

definition jsNumber :: "string \<Rightarrow> int option" where
  "jsNumber s =
     (case s of
        [] \<Rightarrow> Some 0
      | c # ds \<Rightarrow>
          if list_all isDigit s then Some (int (digitsValue s))
          else if c = CHR ''-'' \<and> ds \<noteq> [] \<and> list_all isDigit ds then Some (- int (digitsValue ds))
          else if c = CHR ''+'' \<and> ds \<noteq> [] \<and> list_all isDigit ds then Some (int (digitsValue ds))
          else None)"

text \<open>\<open>text.split(c)\<close> for a one-character separator: the empty text gives one empty
  part.\<close>

fun splitOn :: "char \<Rightarrow> string \<Rightarrow> string list" where
  "splitOn c [] = [[]]"
| "splitOn c (x # xs) =
     (if x = c then [] # splitOn c xs
      else (case splitOn c xs of p # ps \<Rightarrow> (x # p) # ps | [] \<Rightarrow> [[x]]))"

text \<open>\<open>toString\<close> of a number, and \<open>padStart\<close>.\<close>

definition numToString :: "int option \<Rightarrow> string" where
  "numToString a =
     (case a of
        None \<Rightarrow> ''NaN''
      | Some n \<Rightarrow> if n < 0 then CHR ''-'' # natToString (nat (- n)) else natToString (nat n))"

definition padStart :: "nat \<Rightarrow> char \<Rightarrow> string \<Rightarrow> string" where
  "padStart n c s = replicate (n - length s) c @ s"

text \<open>The remainder \<open>a % b\<close> of integers: it has the sign of \<open>a\<close>.\<close>

definition jsRem :: "int \<Rightarrow> int \<Rightarrow> int" where
  "jsRem a b = sgn a * (\<bar>a\<bar> mod \<bar>b\<bar>)"

subsection \<open>The functions of the source\<close>

text \<open>\<open>timeToMinutes\<close>: the first two parts of the text are \<open>hours\<close> and \<open>minutes\<close>; a
  part that is not there is \<open>undefined\<close>, and the sum is then \<open>NaN\<close>.\<close>

definition timeToMinutes :: "string \<Rightarrow> int option" where
  "timeToMinutes time =
     (case map jsNumber (splitOn CHR '':'' time) of
        hours # minutes # _ \<Rightarrow> numAdd (numMul hours (Some 60)) minutes
      | _ \<Rightarrow> None)"

definition minutesToTime :: "int option \<Rightarrow> string" where
  "minutesToTime mins =
     (let hours = map_option (\<lambda>m. jsRem (m div 60) 24) mins;
          minutes = map_option (\<lambda>m. jsRem m 60) mins
      in padStart 2 CHR ''0'' (numToString hours) @ '':'' @ padStart 2 CHR ''0'' (numToString minutes))"

definition getDurationMinutes :: "string \<Rightarrow> string \<Rightarrow> int option" where
  "getDurationMinutes startT endT =
     numMax (Some 0) (numSub (timeToMinutes endT) (timeToMinutes startT))"

text \<open>\<open>s.isCutoff\<close> as a condition: an absent field is not a cutoff.\<close>

definition cutoffFlag :: "ClockSubChannel \<Rightarrow> bool" where
  "cutoffFlag s = (isCutoff s = Some True)"

record HeadSummary =
  totalMins :: "int option"
  cutoffMins :: "int option"
  netMins :: "int option"

definition getHeadSummary :: "ClockHeadChannel \<Rightarrow> HeadSummary" where
  "getHeadSummary head =
     (let total = getDurationMinutes (headStartTime head) (headEndTime head);
          cutoff = foldl (\<lambda>acc s. numAdd acc
                      (foldl (\<lambda>intAcc i. numAdd intAcc (getDurationMinutes (startTime i) (endTime i)))
                         (Some 0) (clockIntervals s)))
                     (Some 0) (filter cutoffFlag (clockSubChannels head))
      in \<lparr>totalMins = total, cutoffMins = cutoff, netMins = numSub total cutoff\<rparr>)"

text \<open>
  What \<open>TimelineVisualization\<close> computes for one head channel: \<open>None\<close> when it returns
  \<open>null\<close> for the head channel (its duration is at most 0), and otherwise the value of
  \<open>netOperationalMins\<close>.
\<close>

definition netOperationalMins :: "ClockHeadChannel \<Rightarrow> int option option" where
  "netOperationalMins head =
     (let headStartMins = timeToMinutes (headStartTime head);
          headEndMins = timeToMinutes (headEndTime head);
          totalDurationMins = numSub headEndMins headStartMins
      in if numLe totalDurationMins (Some 0) then None
         else (let cutoffSubs = filter cutoffFlag (clockSubChannels head);
                   totalCutoffMins =
                     foldl (\<lambda>acc sub. numAdd acc
                        (foldl (\<lambda>intAcc i. numAdd intAcc
                                  (getDurationMinutes (startTime i) (endTime i)))
                           (Some 0) (clockIntervals sub)))
                       (Some 0) cutoffSubs
               in Some (numSub totalDurationMins totalCutoffMins)))"

subsection \<open>The net duration as the spec words it\<close>

text \<open>The sum of a list of numbers.\<close>

definition numSum :: "int option list \<Rightarrow> int option" where
  "numSum xs = foldr numAdd xs (Some 0)"

text \<open>A duration from a start to an end, floored at 0.\<close>

definition flooredDuration :: "string \<Rightarrow> string \<Rightarrow> int option" where
  "flooredDuration startT endT =
     (case numSub (timeToMinutes endT) (timeToMinutes startT) of
        None \<Rightarrow> None
      | Some d \<Rightarrow> Some (if d < 0 then 0 else d))"

text \<open>The head channel's total duration minus the durations of all intervals of all sub
  channels flagged as cutoff.\<close>

definition netDuration :: "ClockHeadChannel \<Rightarrow> int option" where
  "netDuration head =
     numSub (flooredDuration (headStartTime head) (headEndTime head))
       (numSum (map (\<lambda>s. numSum (map (\<lambda>i. flooredDuration (startTime i) (endTime i))
                                   (clockIntervals s)))
                 (filter cutoffFlag (clockSubChannels head))))"

text \<open>A head channel from 07:00 to 14:00 with a sub channel and a cutoff timer, for the
  example below.\<close>

definition sampleClockHead :: ClockHeadChannel where
  "sampleClockHead =
     \<lparr>clockHeadId = ''h1'', clockHeadName = ''Head 1'', headStartTime = ''07:00'',
      headEndTime = ''14:00'',
      clockSubChannels =
        [\<lparr>clockSubId = ''s1'', clockSubName = ''Sub 1'',
          clockIntervals = [\<lparr>clockIntervalId = ''i1'', startTime = ''07:00'', endTime = ''07:30''\<rparr>],
          clockSubExpanded = True, isCutoff = Some False\<rparr>,
         \<lparr>clockSubId = ''c1'', clockSubName = ''Cutoff 1'',
          clockIntervals = [\<lparr>clockIntervalId = ''i2'', startTime = ''09:00'', endTime = ''09:45''\<rparr>,
                            \<lparr>clockIntervalId = ''i3'', startTime = ''12:00'', endTime = ''11:00''\<rparr>],
          clockSubExpanded = True, isCutoff = Some True\<rparr>],
      clockHeadExpanded = True\<rparr>"

text \<open>A head channel that ends before it starts, with a cutoff of half an hour.\<close>

definition reversedClockHead :: ClockHeadChannel where
  "reversedClockHead =
     \<lparr>clockHeadId = ''h1'', clockHeadName = ''Head 1'', headStartTime = ''14:00'',
      headEndTime = ''07:00'',
      clockSubChannels =
        [\<lparr>clockSubId = ''c1'', clockSubName = ''Cutoff 1'',
          clockIntervals = [\<lparr>clockIntervalId = ''i1'', startTime = ''09:00'', endTime = ''09:30''\<rparr>],
          clockSubExpanded = True, isCutoff = Some True\<rparr>],
      clockHeadExpanded = True\<rparr>"

section \<open>The live stopwatch: pausing a head channel\<close>

text \<open>
  Modelled from the spec: the module \<open>@/hooks/useStopwatch\<close>, which holds the timers and
  \<open>toggleHeadChannel\<close>, is not among the sources (only its callers are). The
  definitions of this section follow sections 3, 4.1, 4.2 and 4.3 of the spec. A timer
  has an id, a name, the flag \<open>running\<close>, the banked time \<open>accumulatedMs\<close> and, while
  it runs, the wall-clock time \<open>startedAt\<close> at which its current segment began; a sub
  channel is a timer with marks, a head channel a timer with sub channels. The
  wall-clock time \<open>now\<close> of an operation is an argument.
\<close>

record Timer =
  timerId :: string
  timerName :: string
  running :: bool
  accumulatedMs :: int
  startedAt :: "int option"

record SubChannel = Timer +
  subMarks :: "SubChannelMark list"

record HeadChannel = Timer +
  liveSubChannels :: "SubChannel list"

text \<open>Modelled from the spec: the time of the open segment, \<open>now - startedAt\<close>; a timer
  without \<open>startedAt\<close> has no open segment.\<close>

definition openSegmentMs :: "int \<Rightarrow> 'a Timer_scheme \<Rightarrow> int" where
  "openSegmentMs now t = (case startedAt t of Some t0 \<Rightarrow> now - t0 | None \<Rightarrow> 0)"

text \<open>Modelled from the spec: \<open>getElapsedMs\<close> returns
  \<open>accumulatedMs + (running ? now - startedAt : 0)\<close>.\<close>

definition getElapsedMs :: "int \<Rightarrow> 'a Timer_scheme \<Rightarrow> int" where
  "getElapsedMs now t = accumulatedMs t + (if running t then openSegmentMs now t else 0)"

text \<open>Modelled from the spec: \<open>toggle\<close>. A timer that is not running gets
  \<open>startedAt = now\<close> and \<open>running = true\<close>; a running timer adds \<open>now - startedAt\<close> to
  \<open>accumulatedMs\<close>, clears \<open>startedAt\<close> and gets \<open>running = false\<close>.\<close>

definition toggle :: "int \<Rightarrow> 'a Timer_scheme \<Rightarrow> 'a Timer_scheme" where
  "toggle now t =
     (if \<not> running t then t\<lparr>running := True, startedAt := Some now\<rparr>
      else t\<lparr>running := False, accumulatedMs := accumulatedMs t + openSegmentMs now t,
             startedAt := None\<rparr>)"

text \<open>Modelled from the spec: \<open>recordMark\<close> appends \<open>{action, headTimeMs}\<close> to the marks
  of the sub channel.\<close>

definition recordMark :: "SubChannel \<Rightarrow> MarkAction \<Rightarrow> int \<Rightarrow> SubChannel" where
  "recordMark sub act headElapsedMsAtEvent =
     sub\<lparr>subMarks := subMarks sub @ [\<lparr>action = act, headTimeMs = headElapsedMsAtEvent\<rparr>]\<rparr>"

text \<open>Modelled from the spec: what pausing the head channel does to one sub channel
  beneath it. A running sub channel is paused, and a \<open>pause\<close> mark is recorded for it at
  the elapsed time of the head channel at the moment of the pause; a sub channel that is
  not running is left as it is.\<close>

definition pauseWithHead :: "int \<Rightarrow> int \<Rightarrow> SubChannel \<Rightarrow> SubChannel" where
  "pauseWithHead now headElapsedMs sub =
     (if running sub then recordMark (toggle now sub) Pause headElapsedMs else sub)"

text \<open>Modelled from the spec: \<open>toggleHeadChannel\<close> toggles the timer of the head channel
  of the given id. When that pauses the head channel, every sub channel beneath it is
  treated as above, with the elapsed time the head channel has at that moment. Starting
  the head channel starts no sub channel; an id that is not there changes nothing.\<close>

definition toggleHeadChannel :: "int \<Rightarrow> string \<Rightarrow> HeadChannel list \<Rightarrow> HeadChannel list" where
  "toggleHeadChannel now hid heads =
     map (\<lambda>h. if timerId h \<noteq> hid then h
              else if running h
                then (toggle now h)
                       \<lparr>liveSubChannels :=
                          map (pauseWithHead now (getElapsedMs now h)) (liveSubChannels h)\<rparr>
                else toggle now h) heads"

text \<open>A running head channel with two running sub channels and a paused one, for the
  example below.\<close>

definition sampleLiveHeads :: "HeadChannel list" where
  "sampleLiveHeads =
     [\<lparr>timerId = ''h1'', timerName = ''Head 1'', running = True, accumulatedMs = 1000,
       startedAt = Some 50000,
       liveSubChannels =
         [\<lparr>timerId = ''s1'', timerName = ''Sub 1'', running = True, accumulatedMs = 0,
           startedAt = Some 52000, subMarks = [\<lparr>action = Start, headTimeMs = 3000\<rparr>]\<rparr>,
          \<lparr>timerId = ''s2'', timerName = ''Sub 2'', running = False, accumulatedMs = 700,
           startedAt = None,
           subMarks = [\<lparr>action = Start, headTimeMs = 100\<rparr>, \<lparr>action = Pause, headTimeMs = 800\<rparr>]\<rparr>,
          \<lparr>timerId = ''s3'', timerName = ''Sub 3'', running = True, accumulatedMs = 0,
           startedAt = Some 58000, subMarks = [\<lparr>action = Start, headTimeMs = 9000\<rparr>]\<rparr>]\<rparr>]"

section \<open>Properties of the interval derivation\<close>

subsection \<open>The loop is the scan\<close>

lemma foldl_loopBody_scan:
  "(case foldl loopBody (acc, opn) marks of
      (ivs, opn') \<Rightarrow>
        (case opn' of
           Some s \<Rightarrow> if r then ivs @ [\<lparr>startMs = s, endMs = h\<rparr>] else ivs
         | None \<Rightarrow> ivs))
   = acc @ scanFrom opn marks r h"
proof (induction marks arbitrary: acc opn)
  case Nil
  show ?case by (simp split: option.split)
next
  case (Cons m ms)
  show ?case
  proof (cases "action m")
    case Start
    then show ?thesis using Cons.IH [of acc "Some (headTimeMs m)"] by simp
  next
    case Pause
    show ?thesis
    proof (cases opn)
      case None
      then show ?thesis using Pause Cons.IH [of acc None] by simp
    next
      case (Some s)
      then show ?thesis
        using Pause Cons.IH [of "acc @ [\<lparr>startMs = s, endMs = headTimeMs m\<rparr>]" None] by simp
    qed
  qed
qed

lemma calculateIntervals_scan:
  "calculateIntervals marks r h = scanFrom None marks r h"
  using foldl_loopBody_scan [of r h "[]" None marks]
  by (simp add: calculateIntervals_def)

text \<open>
  Claim C1. For every list of marks, every flag \<open>currentlyRunning\<close> and every head time
  \<open>h\<close>, \<open>calculateIntervals\<close> returns exactly the list of the left-to-right scan of the
  spec: a \<open>start\<close> mark opens a start, a \<open>pause\<close> mark seen while a start is open closes
  the interval, and an open start left at the end gives a last interval up to \<open>h\<close> when
  \<open>currentlyRunning\<close> holds and no interval otherwise.
\<close>

theorem calculateIntervals_is_scan:
  "calculateIntervals marks currentlyRunning h = deriveIntervals marks currentlyRunning h"
  by (simp add: calculateIntervals_scan deriveIntervals_def)

theorem calculateIntervals_is_scan_witness:
  "calculateIntervals
     [\<lparr>action = Start, headTimeMs = 30000\<rparr>, \<lparr>action = Pause, headTimeMs = 90000\<rparr>,
      \<lparr>action = Start, headTimeMs = 100000\<rparr>] True 120000
   = [\<lparr>startMs = 30000, endMs = 90000\<rparr>, \<lparr>startMs = 100000, endMs = 120000\<rparr>]
   \<and> calculateIntervals
     [\<lparr>action = Start, headTimeMs = 30000\<rparr>, \<lparr>action = Pause, headTimeMs = 90000\<rparr>,
      \<lparr>action = Start, headTimeMs = 100000\<rparr>] False 120000
   = [\<lparr>startMs = 30000, endMs = 90000\<rparr>]"
  using calculateIntervals_is_scan
    [of "[\<lparr>action = Start, headTimeMs = 30000\<rparr>, \<lparr>action = Pause, headTimeMs = 90000\<rparr>,
          \<lparr>action = Start, headTimeMs = 100000\<rparr>]"]
  by (simp add: deriveIntervals_def)

subsection \<open>Order of the intervals\<close>

lemma scanFrom_ordered:
  "sorted (map headTimeMs ms) \<Longrightarrow> (r \<longrightarrow> (\<forall>m\<in>set ms. headTimeMs m \<le> h)) \<Longrightarrow>
   (\<forall>s. opn = Some s \<longrightarrow> (r \<longrightarrow> s \<le> h) \<and> lo \<le> s \<and> (\<forall>m\<in>set ms. s \<le> headTimeMs m)) \<Longrightarrow>
   \<forall>m\<in>set ms. lo \<le> headTimeMs m \<Longrightarrow>
   (\<forall>i\<in>set (scanFrom opn ms r h). startMs i \<le> endMs i \<and> lo \<le> startMs i)
   \<and> sorted_wrt (\<lambda>a b. endMs a \<le> startMs b) (scanFrom opn ms r h)"
proof (induction ms arbitrary: opn lo)
  case Nil
  then show ?case by (auto split: option.splits)
next
  case (Cons m ms)
  have srt: "sorted (map headTimeMs ms)" and above: "\<forall>x\<in>set ms. headTimeMs m \<le> headTimeMs x"
    using Cons.prems(1) by auto
  have hi: "r \<longrightarrow> (\<forall>x\<in>set ms. headTimeMs x \<le> h)" and hm: "r \<longrightarrow> headTimeMs m \<le> h"
    using Cons.prems(2) by auto
  have lom: "lo \<le> headTimeMs m" and lo_rest: "\<forall>x\<in>set ms. lo \<le> headTimeMs x"
    using Cons.prems(4) by auto
  show ?case
  proof (cases "action m")
    case Start
    have "(\<forall>i\<in>set (scanFrom (Some (headTimeMs m)) ms r h). startMs i \<le> endMs i \<and> lo \<le> startMs i)
      \<and> sorted_wrt (\<lambda>a b. endMs a \<le> startMs b) (scanFrom (Some (headTimeMs m)) ms r h)"
      by (rule Cons.IH) (use srt above hi hm lom lo_rest in auto)
    then show ?thesis using Start by simp
  next
    case Pause
    have rest: "(\<forall>i\<in>set (scanFrom None ms r h). startMs i \<le> endMs i \<and> headTimeMs m \<le> startMs i)
      \<and> sorted_wrt (\<lambda>a b. endMs a \<le> startMs b) (scanFrom None ms r h)"
      by (rule Cons.IH) (use srt above hi in auto)
    show ?thesis
    proof (cases opn)
      case None
      then show ?thesis using Pause rest lom by auto
    next
      case (Some s)
      then have "lo \<le> s" "s \<le> headTimeMs m" using Cons.prems(3) by auto
      then show ?thesis using Pause Some rest lom by auto
    qed
  qed
qed

lemma sorted_wrt_starts:
  "\<forall>i\<in>set ivs. startMs i \<le> endMs i \<Longrightarrow> sorted_wrt (\<lambda>a b. endMs a \<le> startMs b) ivs \<Longrightarrow>
   sorted_wrt (\<lambda>a b. startMs a \<le> startMs b) ivs"
  by (induction ivs) auto

lemma scan_wellformed:
  assumes "timesAscend marks r h"
  shows "endsAfterStarts (scanFrom None marks r h) \<and> chronological (scanFrom None marks r h)
    \<and> nonOverlapping (scanFrom None marks r h)"
proof -
  obtain lo where lo: "\<forall>m\<in>set marks. lo \<le> headTimeMs m"
  proof (cases marks)
    case Nil
    then show ?thesis using that by simp
  next
    case (Cons a as)
    then have "\<forall>m\<in>set marks. headTimeMs a \<le> headTimeMs m"
      using assms by (auto simp: timesAscend_def)
    then show ?thesis using that by blast
  qed
  have "(\<forall>i\<in>set (scanFrom None marks r h). startMs i \<le> endMs i \<and> lo \<le> startMs i)
   \<and> sorted_wrt (\<lambda>a b. endMs a \<le> startMs b) (scanFrom None marks r h)"
    by (rule scanFrom_ordered) (use assms lo in \<open>auto simp: timesAscend_def list_all_iff\<close>)
  then show ?thesis
    using sorted_wrt_starts [of "scanFrom None marks r h"]
    by (simp add: endsAfterStarts_def chronological_def nonOverlapping_def list_all_iff)
qed

text \<open>
  Claim C2, as stated, fails: alternation of the actions says nothing about the recorded
  times. The alternating list of a \<open>start\<close> at head time 10 and a \<open>pause\<close> at head time 5
  gives the single interval from 10 to 5, which ends before it starts.
\<close>

theorem alternating_marks_inverted_interval:
  "alternates [\<lparr>action = Start, headTimeMs = 10\<rparr>, \<lparr>action = Pause, headTimeMs = 5\<rparr>]
   \<and> calculateIntervals
       [\<lparr>action = Start, headTimeMs = 10\<rparr>, \<lparr>action = Pause, headTimeMs = 5\<rparr>] False 0
     = [\<lparr>startMs = 10, endMs = 5\<rparr>]
   \<and> \<not> endsAfterStarts (calculateIntervals
       [\<lparr>action = Start, headTimeMs = 10\<rparr>, \<lparr>action = Pause, headTimeMs = 5\<rparr>] False 0)"
  by (simp add: alternates_def calculateIntervals_def endsAfterStarts_def)

text \<open>
  Claim C2, amended. For every mark list that alternates and whose head times do not
  decrease along the list, every flag \<open>currentlyRunning\<close> and every head time that, when
  the flag holds, is not below any mark's head time: every interval returned by
  \<open>calculateIntervals\<close> ends no earlier than it starts, and the intervals are in
  chronological order and pairwise non-overlapping.
\<close>

theorem calculateIntervals_ordered:
  assumes "alternates marks" and "timesAscend marks currentlyRunning h"
  shows "endsAfterStarts (calculateIntervals marks currentlyRunning h)
    \<and> chronological (calculateIntervals marks currentlyRunning h)
    \<and> nonOverlapping (calculateIntervals marks currentlyRunning h)"
  using scan_wellformed [OF assms(2)] by (simp add: calculateIntervals_scan)

theorem calculateIntervals_ordered_witness:
  "alternates [\<lparr>action = Start, headTimeMs = 1\<rparr>, \<lparr>action = Pause, headTimeMs = 4\<rparr>,
               \<lparr>action = Start, headTimeMs = 6\<rparr>]
   \<and> timesAscend [\<lparr>action = Start, headTimeMs = 1\<rparr>, \<lparr>action = Pause, headTimeMs = 4\<rparr>,
               \<lparr>action = Start, headTimeMs = 6\<rparr>] True 9
   \<and> endsAfterStarts (calculateIntervals
        [\<lparr>action = Start, headTimeMs = 1\<rparr>, \<lparr>action = Pause, headTimeMs = 4\<rparr>,
         \<lparr>action = Start, headTimeMs = 6\<rparr>] True 9)
   \<and> chronological (calculateIntervals
        [\<lparr>action = Start, headTimeMs = 1\<rparr>, \<lparr>action = Pause, headTimeMs = 4\<rparr>,
         \<lparr>action = Start, headTimeMs = 6\<rparr>] True 9)
   \<and> nonOverlapping (calculateIntervals
        [\<lparr>action = Start, headTimeMs = 1\<rparr>, \<lparr>action = Pause, headTimeMs = 4\<rparr>,
         \<lparr>action = Start, headTimeMs = 6\<rparr>] True 9)"
proof -
  have a: "alternates [\<lparr>action = Start, headTimeMs = 1\<rparr>, \<lparr>action = Pause, headTimeMs = 4\<rparr>,
               \<lparr>action = Start, headTimeMs = 6\<rparr>]"
    by (simp add: alternates_def)
  have t: "timesAscend [\<lparr>action = Start, headTimeMs = 1\<rparr>, \<lparr>action = Pause, headTimeMs = 4\<rparr>,
               \<lparr>action = Start, headTimeMs = 6\<rparr>] True 9"
    by (simp add: timesAscend_def)
  show ?thesis using a t calculateIntervals_ordered [OF a t] by simp
qed

subsection \<open>Number of intervals\<close>

lemma not_Start_iff: "(x \<noteq> Start) = (x = Pause)" "(Start \<noteq> x) = (x = Pause)"
  by (cases x; simp)+

lemma not_Pause_iff: "(x \<noteq> Pause) = (x = Start)" "(Pause \<noteq> x) = (x = Start)"
  by (cases x; simp)+

lemma scan_count:
  "alternates ms \<Longrightarrow>
   length (scanFrom None ms r h) = completedPairs ms + (if r \<and> endsOpen ms then 1 else 0)"
proof (induction ms rule: completedPairs.induct)
  case (1 a b rest)
  from "1.prems" have a: "action a = Start" and b: "action b = Pause" and nr: "noRepeat (b # rest)"
    by (auto simp: alternates_def not_Start_iff)
  have alt: "alternates rest"
    using nr b by (cases rest) (auto simp: alternates_def not_Pause_iff)
  have "endsOpen (a # b # rest) = endsOpen rest"
    using b by (cases rest) (auto simp: endsOpen_def)
  then show ?case using "1.IH"(1) a b alt by simp
qed (auto simp: alternates_def endsOpen_def)

text \<open>
  Claim C3. For every mark list produced by alternating toggles (alternating actions
  that begin with \<open>start\<close>, the last mark being an unmatched \<open>start\<close> exactly when
  \<open>currentlyRunning\<close> holds), the number of intervals returned by \<open>calculateIntervals\<close>
  is the number of completed start-to-pause pairs, plus one when \<open>currentlyRunning\<close>
  holds.
\<close>

theorem calculateIntervals_count:
  assumes "alternates marks" and "currentlyRunning = endsOpen marks"
  shows "length (calculateIntervals marks currentlyRunning h)
    = completedPairs marks + (if currentlyRunning then 1 else 0)"
  using scan_count [OF assms(1), of currentlyRunning h] assms(2)
  by (simp add: calculateIntervals_scan)

theorem calculateIntervals_count_witness:
  "alternates [\<lparr>action = Start, headTimeMs = 1\<rparr>, \<lparr>action = Pause, headTimeMs = 4\<rparr>,
               \<lparr>action = Start, headTimeMs = 6\<rparr>]
   \<and> True = endsOpen [\<lparr>action = Start, headTimeMs = 1\<rparr>, \<lparr>action = Pause, headTimeMs = 4\<rparr>,
               \<lparr>action = Start, headTimeMs = 6\<rparr>]
   \<and> completedPairs [\<lparr>action = Start, headTimeMs = 1\<rparr>, \<lparr>action = Pause, headTimeMs = 4\<rparr>,
               \<lparr>action = Start, headTimeMs = 6\<rparr>] = 1
   \<and> length (calculateIntervals
        [\<lparr>action = Start, headTimeMs = 1\<rparr>, \<lparr>action = Pause, headTimeMs = 4\<rparr>,
         \<lparr>action = Start, headTimeMs = 6\<rparr>] True 9) = 2"
proof -
  have a: "alternates [\<lparr>action = Start, headTimeMs = 1\<rparr>, \<lparr>action = Pause, headTimeMs = 4\<rparr>,
               \<lparr>action = Start, headTimeMs = 6\<rparr>]"
    by (simp add: alternates_def)
  have e: "True = endsOpen [\<lparr>action = Start, headTimeMs = 1\<rparr>, \<lparr>action = Pause, headTimeMs = 4\<rparr>,
               \<lparr>action = Start, headTimeMs = 6\<rparr>]"
    by (simp add: endsOpen_def)
  show ?thesis using a e calculateIntervals_count [OF a e, of 9] by simp
qed

subsection \<open>No effect on the marks\<close>

lemma forOf_marks: "marksArr (forOf i st) = marksArr st"
proof (induction i st rule: forOf.induct)
  case (1 i st)
  show ?case
  proof (cases "i < length (marksArr st)")
    case True
    then show ?thesis
      using "1.IH" by (subst forOf.simps) (simp add: loopStep_def split: option.split)
  next
    case False
    then show ?thesis by (subst forOf.simps) simp
  qed
qed

lemma loopStep_loopBody:
  "(intervalsArr (loopStep m st), startMsVar (loopStep m st))
     = loopBody (intervalsArr st, startMsVar st) m"
  by (cases "action m") (simp_all add: loopStep_def split: option.split)

lemma marksArr_loopStep: "marksArr (loopStep m st) = marksArr st"
  by (simp add: loopStep_def split: option.split)

lemma forOf_foldl:
  "i \<le> length (marksArr st) \<Longrightarrow>
   (intervalsArr (forOf i st), startMsVar (forOf i st))
     = foldl loopBody (intervalsArr st, startMsVar st) (drop i (marksArr st))"
proof (induction i st rule: forOf.induct)
  case (1 i st)
  show ?case
  proof (cases "i < length (marksArr st)")
    case True
    have d: "drop i (marksArr st) = marksArr st ! i # drop (Suc i) (marksArr st)"
      using True by (simp add: Cons_nth_drop_Suc)
    have "(intervalsArr (forOf i st), startMsVar (forOf i st))
        = (intervalsArr (forOf (Suc i) (loopStep (marksArr st ! i) st)),
           startMsVar (forOf (Suc i) (loopStep (marksArr st ! i) st)))"
      using True by (subst (1 2) forOf.simps) simp
    also have "\<dots> = foldl loopBody (intervalsArr (loopStep (marksArr st ! i) st),
                 startMsVar (loopStep (marksArr st ! i) st))
                 (drop (Suc i) (marksArr (loopStep (marksArr st ! i) st)))"
      using True by (intro "1.IH") (simp_all add: marksArr_loopStep)
    also have "\<dots> = foldl loopBody (intervalsArr st, startMsVar st) (drop i (marksArr st))"
      by (simp add: d loopStep_loopBody marksArr_loopStep)
    finally show ?thesis .
  next
    case False
    then show ?thesis using "1.prems" by (subst (1 2) forOf.simps) simp
  qed
qed

lemma calculateIntervalsRun_eq:
  "calculateIntervalsRun marks r h = (calculateIntervals marks r h, marks)"
proof -
  define st where "st = forOf 0 \<lparr>marksArr = marks, intervalsArr = [], startMsVar = None\<rparr>"
  have m: "marksArr st = marks" by (simp add: st_def forOf_marks)
  have f: "foldl loopBody ([], None) marks = (intervalsArr st, startMsVar st)"
    using forOf_foldl [of 0 "\<lparr>marksArr = marks, intervalsArr = [], startMsVar = None\<rparr>"]
    by (simp add: st_def)
  show ?thesis
    unfolding calculateIntervalsRun_def calculateIntervals_def st_def [symmetric] f
    by (simp add: m Let_def split: option.split)
qed

text \<open>
  Claim C9. \<open>calculateIntervals\<close> is deterministic and free of side effects: a call
  leaves the array \<open>marks\<close> as it found it, its result is the value of the function
  \<open>calculateIntervals\<close> of its three arguments, and two calls with equal marks, equal
  flags and equal head times return equal interval lists.
\<close>

theorem calculateIntervals_pure:
  "snd (calculateIntervalsRun marks r h) = marks
   \<and> fst (calculateIntervalsRun marks r h) = calculateIntervals marks r h
   \<and> (marks' = marks \<and> r' = r \<and> h' = h \<longrightarrow>
        calculateIntervalsRun marks' r' h' = calculateIntervalsRun marks r h)"
  by (simp add: calculateIntervalsRun_eq)

theorem calculateIntervals_pure_witness:
  "calculateIntervalsRun
     [\<lparr>action = Start, headTimeMs = 1\<rparr>, \<lparr>action = Pause, headTimeMs = 4\<rparr>] True 9
   = ([\<lparr>startMs = 1, endMs = 4\<rparr>],
      [\<lparr>action = Start, headTimeMs = 1\<rparr>, \<lparr>action = Pause, headTimeMs = 4\<rparr>])"
  using calculateIntervals_pure
    [of "[\<lparr>action = Start, headTimeMs = 1\<rparr>, \<lparr>action = Pause, headTimeMs = 4\<rparr>]" True 9
        "[\<lparr>action = Start, headTimeMs = 1\<rparr>, \<lparr>action = Pause, headTimeMs = 4\<rparr>]" True 9]
  by (simp add: calculateIntervals_def prod_eq_iff)

section \<open>Properties of the duration-based builder\<close>

subsection \<open>Order and rounding of the numbers\<close>

lemma jsLe_refl: "jsLe a a"
  by (cases a) simp_all

lemma jsLe_trans: "jsLe a b \<Longrightarrow> jsLe b c \<Longrightarrow> jsLe a c"
  by (cases a; cases b; cases c) simp_all

lemma jsLe_antisym: "jsLe a b \<Longrightarrow> jsLe b a \<Longrightarrow> a = b"
  by (cases a; cases b) simp_all

lemma jsLe_total: "jsLe a b \<or> jsLe b a"
  by (cases a; cases b) auto

lemma mathMax_upper: "jsLe a (mathMax a b)" "jsLe b (mathMax a b)"
  using jsLe_total [of a b] by (auto simp: mathMax_def jsLe_refl)

lemma mathMax_absorb: "jsLe b a \<Longrightarrow> mathMax a b = a"
  by (auto simp: mathMax_def dest: jsLe_antisym)

lemma mathMin_lower: "jsLe (mathMin a b) a" "jsLe (mathMin a b) b"
  using jsLe_total [of a b] by (auto simp: mathMin_def jsLe_refl)

lemma mathMin_greatest: "jsLe c a \<Longrightarrow> jsLe c b \<Longrightarrow> jsLe c (mathMin a b)"
  by (simp add: mathMin_def)

lemma roundToDouble_nonneg: "0 \<le> n \<Longrightarrow> 0 \<le> roundToDouble n"
  by (auto simp: roundToDouble_def Let_def pos_imp_zdiv_nonneg_iff)

lemma toNumber_nonneg: "0 \<le> x \<Longrightarrow> jsLe (Fin 0) (toNumber x)"
  using roundToDouble_nonneg [of "\<bar>x\<bar>"]
  by (simp add: toNumber_def Let_def sgn_if)

lemma jsPlus_nonneg: "jsLe (Fin 0) a \<Longrightarrow> 0 \<le> k \<Longrightarrow> jsLe (Fin 0) (jsPlus a k)"
  by (cases a) (simp_all add: toNumber_nonneg)

lemma bitLen_bound: "n < 2 ^ k \<Longrightarrow> bitLen n \<le> k"
proof (induction k arbitrary: n)
  case 0
  then show ?case by (subst bitLen.simps) simp
next
  case (Suc k)
  show ?case
  proof (cases "n \<le> 0")
    case True
    then show ?thesis by (subst bitLen.simps) simp
  next
    case False
    have "n div 2 < 2 ^ k" using Suc.prems by simp
    then have "bitLen (n div 2) \<le> k" by (rule Suc.IH)
    then show ?thesis using False by (subst bitLen.simps) simp
  qed
qed

lemma toNumber_exact:
  assumes "\<bar>x\<bar> \<le> 2 ^ 53"
  shows "toNumber x = Fin x"
proof -
  have r: "roundToDouble \<bar>x\<bar> = \<bar>x\<bar>"
    using assms by (simp add: roundToDouble_def maxExact_def)
  have "\<bar>x\<bar> < 2 ^ 54" using assms by simp
  then have "bitLen \<bar>x\<bar> \<le> 54" by (rule bitLen_bound)
  then have "\<not> 1024 < bitLen \<bar>x\<bar>" by simp
  moreover have "sgn x * \<bar>x\<bar> = x" by (simp add: sgn_if)
  ultimately show ?thesis by (simp add: toNumber_def r Let_def)
qed

lemma successor_exact:
  "0 \<le> s \<Longrightarrow> s \<le> maxSafeInteger \<Longrightarrow> toNumber (s + 1) = Fin (s + 1)"
  by (simp add: maxSafeInteger_def toNumber_exact)

subsection \<open>Bounds kept by every operation\<close>

lemma okHead_map:
  "boundedBelow hcs \<Longrightarrow> (\<And>h. okHead h \<Longrightarrow> okHead (f h)) \<Longrightarrow> boundedBelow (map f hcs)"
  by (simp add: boundedBelow_def list_all_iff)

lemma okHead_map_subs:
  "okHead h \<Longrightarrow> (\<And>s. okSub s \<Longrightarrow> okSub (g s)) \<Longrightarrow>
   okHead (h\<lparr>subChannels := map g (subChannels h)\<rparr>)"
  by (simp add: okHead_def list_all_iff)

lemma okSub_map_intervals:
  "okSub s \<Longrightarrow> (\<And>i. okInterval i \<Longrightarrow> okInterval (g i)) \<Longrightarrow>
   okSub (s\<lparr>intervals := map g (intervals s)\<rparr>)"
  by (simp add: okSub_def list_all_iff)

lemma bb_addHeadChannel: "boundedBelow hcs \<Longrightarrow> boundedBelow (addHeadChannel fresh hcs)"
  by (simp add: boundedBelow_def addHeadChannel_def okHead_def)

lemma bb_deleteHeadChannel: "boundedBelow hcs \<Longrightarrow> boundedBelow (deleteHeadChannel hid hcs)"
  by (simp add: boundedBelow_def deleteHeadChannel_def list_all_iff)

lemma bb_toggleHeadExpand: "boundedBelow hcs \<Longrightarrow> boundedBelow (toggleHeadExpand hid hcs)"
  unfolding toggleHeadExpand_def by (erule okHead_map) (simp add: okHead_def)

lemma bb_updateHeadChannel_name:
  "boundedBelow hcs \<Longrightarrow>
   boundedBelow (updateHeadChannel hid (noHeadUpdates\<lparr>newHeadName := Some newText\<rparr>) hcs)"
  unfolding updateHeadChannel_def
  by (erule okHead_map) (simp add: okHead_def spreadHead_def noHeadUpdates_def orKeep_def)

lemma bb_updateHeadChannel_total:
  "boundedBelow hcs \<Longrightarrow> jsLe (Fin 1) t \<Longrightarrow>
   boundedBelow (updateHeadChannel hid (noHeadUpdates\<lparr>newTotalMinutes := Some t\<rparr>) hcs)"
  unfolding updateHeadChannel_def
  by (erule okHead_map) (simp add: okHead_def spreadHead_def noHeadUpdates_def orKeep_def)

lemma bb_addSubChannel: "boundedBelow hcs \<Longrightarrow> boundedBelow (addSubChannel hid fresh hcs)"
  unfolding addSubChannel_def
  by (erule okHead_map) (simp add: okHead_def okSub_def)

lemma bb_deleteSubChannel: "boundedBelow hcs \<Longrightarrow> boundedBelow (deleteSubChannel hid sid hcs)"
  unfolding deleteSubChannel_def
  by (erule okHead_map) (simp add: okHead_def list_all_iff)

lemma bb_toggleSubExpand: "boundedBelow hcs \<Longrightarrow> boundedBelow (toggleSubExpand hid sid hcs)"
  unfolding toggleSubExpand_def
  by (erule okHead_map) (auto intro!: okHead_map_subs simp: okSub_def)

lemma bb_updateSubChannel_name:
  "boundedBelow hcs \<Longrightarrow>
   boundedBelow (updateSubChannel hid sid (noSubUpdates\<lparr>newSubName := Some newText\<rparr>) hcs)"
  unfolding updateSubChannel_def
  by (erule okHead_map)
     (auto intro!: okHead_map_subs simp: okSub_def spreadSub_def noSubUpdates_def orKeep_def)

lemma okSub_last:
  "okSub s \<Longrightarrow> intervals s \<noteq> [] \<Longrightarrow> jsLe (Fin 0) (endMin (last (intervals s)))"
  using last_in_set [of "intervals s"] by (auto simp: okSub_def list_all_iff okInterval_def)

lemma okSub_addInterval:
  assumes "okSub s" and "jsLe (Fin 1) t"
  shows "okSub (let lastEnd = (if length (intervals s) > 0 then endMin (last (intervals s))
                               else Fin 0)
          in s\<lparr>intervals := intervals s @
               [\<lparr>intervalId = fresh, startMin = lastEnd,
                 endMin = mathMin (jsPlus lastEnd 5) t\<rparr>]\<rparr>)"
proof -
  define lastEnd where
    "lastEnd = (if length (intervals s) > 0 then endMin (last (intervals s)) else Fin 0)"
  have l: "jsLe (Fin 0) lastEnd"
    using okSub_last [OF assms(1)] by (simp add: lastEnd_def)
  have t: "jsLe (Fin 0) t"
    using jsLe_trans [of "Fin 0" "Fin 1" t] assms(2) by simp
  have "jsLe (Fin 0) (mathMin (jsPlus lastEnd 5) t)"
    using l t by (simp add: mathMin_greatest jsPlus_nonneg)
  then show ?thesis
    using assms(1) l unfolding lastEnd_def [symmetric]
    by (simp add: okSub_def okInterval_def Let_def)
qed

lemma bb_addInterval: "boundedBelow hcs \<Longrightarrow> boundedBelow (addInterval hid sid fresh hcs)"
  unfolding addInterval_def
proof (erule okHead_map)
  fix h assume h: "okHead h"
  then have t: "jsLe (Fin 1) (totalMinutes h)" by (simp add: okHead_def)
  define g :: "ImportSubChannel \<Rightarrow> ImportSubChannel" where "g = (\<lambda>s. if subId s \<noteq> sid then s
        else (let lastEnd = (if length (intervals s) > 0 then endMin (last (intervals s))
                             else Fin 0)
              in s\<lparr>intervals := intervals s @
                    [\<lparr>intervalId = fresh, startMin = lastEnd,
                      endMin = mathMin (jsPlus lastEnd 5) (totalMinutes h)\<rparr>]\<rparr>))"
  have "okSub (g s)" if "okSub s" for s
    using okSub_addInterval [OF that t, of fresh] that by (simp add: g_def)
  then have "okHead (h\<lparr>subChannels := map g (subChannels h)\<rparr>)"
    using h by (intro okHead_map_subs)
  then show "okHead (if headId h \<noteq> hid then h
     else h\<lparr>subChannels := map (\<lambda>s. if subId s \<noteq> sid then s
        else (let lastEnd = (if length (intervals s) > 0 then endMin (last (intervals s))
                             else Fin 0)
              in s\<lparr>intervals := intervals s @
                    [\<lparr>intervalId = fresh, startMin = lastEnd,
                      endMin = mathMin (jsPlus lastEnd 5) (totalMinutes h)\<rparr>]\<rparr>))
          (subChannels h)\<rparr>)"
    using h by (simp add: g_def)
qed

lemma bb_deleteInterval: "boundedBelow hcs \<Longrightarrow> boundedBelow (deleteInterval hid sid iid hcs)"
  unfolding deleteInterval_def
  by (erule okHead_map) (auto intro!: okHead_map_subs simp: okSub_def list_all_iff)

lemma bb_updateInterval:
  assumes "boundedBelow hcs" and "\<And>i. okInterval i \<Longrightarrow> okInterval (spreadInterval i u)"
  shows "boundedBelow (updateInterval hid sid iid u hcs)"
  unfolding updateInterval_def
  by (rule okHead_map [OF assms(1)])
     (auto intro!: okHead_map_subs okSub_map_intervals simp: assms(2))

lemma bb_updateInterval_start:
  "boundedBelow hcs \<Longrightarrow> jsLe (Fin 0) v \<Longrightarrow>
   boundedBelow (updateInterval hid sid iid (noIntervalUpdates\<lparr>newStartMin := Some v\<rparr>) hcs)"
  by (erule bb_updateInterval)
     (simp add: okInterval_def spreadInterval_def noIntervalUpdates_def orKeep_def)

lemma bb_updateInterval_end:
  "boundedBelow hcs \<Longrightarrow> jsLe (Fin 0) v \<Longrightarrow>
   boundedBelow (updateInterval hid sid iid (noIntervalUpdates\<lparr>newEndMin := Some v\<rparr>) hcs)"
  by (erule bb_updateInterval)
     (simp add: okInterval_def spreadInterval_def noIntervalUpdates_def orKeep_def)

subsection \<open>The handlers\<close>

lemma okInterval_nth:
  "boundedBelow hcs \<Longrightarrow> validPos hcs hi si ii \<Longrightarrow> okInterval (intervalAt hcs hi si ii)"
  by (simp add: boundedBelow_def okHead_def okSub_def list_all_length validPos_def intervalAt_def)

lemma onInterval_cases:
  "onInterval hcs hi si ii f =
     (if validPos hcs hi si ii
      then f (hcs ! hi) (subChannels (hcs ! hi) ! si) (intervalAt hcs hi si ii) else hcs)"
  by (simp add: onInterval_def onSub_def onHead_def nthOpt_def validPos_def intervalAt_def)

lemma onSub_cases:
  "onSub hcs hi si f =
     (if hi < length hcs \<and> si < length (subChannels (hcs ! hi))
      then f (hcs ! hi) (subChannels (hcs ! hi) ! si) else hcs)"
  by (simp add: onSub_def onHead_def nthOpt_def)

lemma onHead_cases:
  "onHead hcs hi f = (if hi < length hcs then f (hcs ! hi) else hcs)"
  by (simp add: onHead_def nthOpt_def)

lemma bb_handleEvent:
  assumes "boundedBelow hcs"
  shows "boundedBelow (handleEvent e hcs)"
proof (cases e)
  case (AddHeadClick fresh)
  then show ?thesis using assms by (simp add: bb_addHeadChannel)
next
  case (ToggleHeadClick hi)
  then show ?thesis using assms by (simp add: onHead_cases bb_toggleHeadExpand)
next
  case (HeadNameChange hi nm)
  then show ?thesis using assms by (simp add: onHead_cases bb_updateHeadChannel_name)
next
  case (TotalMinutesChange hi parsed)
  then show ?thesis
    using assms by (simp add: onHead_cases bb_updateHeadChannel_total mathMax_upper)
next
  case (DeleteHeadClick hi)
  then show ?thesis using assms by (simp add: onHead_cases bb_deleteHeadChannel)
next
  case (AddSubClick hi fresh)
  then show ?thesis using assms by (simp add: onHead_cases bb_addSubChannel)
next
  case (ToggleSubClick hi si)
  then show ?thesis using assms by (simp add: onSub_cases bb_toggleSubExpand)
next
  case (SubNameChange hi si nm)
  then show ?thesis using assms by (simp add: onSub_cases bb_updateSubChannel_name)
next
  case (DeleteSubClick hi si)
  then show ?thesis using assms by (simp add: onSub_cases bb_deleteSubChannel)
next
  case (AddIntervalClick hi si fresh)
  then show ?thesis using assms by (simp add: onSub_cases bb_addInterval)
next
  case (StartMinChange hi si ii parsed)
  then show ?thesis
    using assms by (simp add: onInterval_cases bb_updateInterval_start mathMax_upper)
next
  case (EndMinChange hi si ii parsed)
  show ?thesis
  proof (cases "validPos hcs hi si ii")
    case False
    then show ?thesis using assms EndMinChange by (simp add: onInterval_cases)
  next
    case True
    have "jsLe (Fin 0) (startMin (intervalAt hcs hi si ii))"
      using okInterval_nth [OF assms True] by (simp add: okInterval_def)
    then have "jsLe (Fin 0) (jsPlus (startMin (intervalAt hcs hi si ii)) 1)"
      by (simp add: jsPlus_nonneg)
    then have "jsLe (Fin 0) (mathMax (jsPlus (startMin (intervalAt hcs hi si ii)) 1)
                   (mathMin (numOr parsed (Fin 1)) (totalMinutes (hcs ! hi))))"
      by (rule jsLe_trans) (rule mathMax_upper)
    then show ?thesis
      using assms EndMinChange True by (simp add: onInterval_cases bb_updateInterval_end)
  qed
next
  case (DeleteIntervalClick hi si ii)
  then show ?thesis using assms by (simp add: onInterval_cases bb_deleteInterval)
qed

lemma bb_foldl:
  "boundedBelow hcs \<Longrightarrow> boundedBelow (foldl (\<lambda>hcs e. handleEvent e hcs) hcs es)"
  by (induction es arbitrary: hcs) (simp_all add: bb_handleEvent)

lemma bb_runEvents: "boundedBelow (runEvents es)"
  unfolding runEvents_def by (rule bb_foldl) (simp add: boundedBelow_def)

lemma updateInterval_at:
  assumes "validPos hcs hi si ii"
  shows "intervalAt (updateInterval (headId (hcs ! hi)) (subId (subChannels (hcs ! hi) ! si))
            (intervalId (intervalAt hcs hi si ii)) u hcs) hi si ii
         = spreadInterval (intervalAt hcs hi si ii) u"
  using assms by (simp add: validPos_def intervalAt_def updateInterval_def)

lemma clamp_any_attempt:
  assumes "0 \<le> s"
  shows "mathMax (Fin (s + 1)) (mathMin (numOr parsed (Fin 1)) t)
       = mathMax (Fin (s + 1)) (mathMin (attemptedValue parsed) t)"
proof (cases "parsed = Some (Fin 0)")
  case False
  then show ?thesis by (auto simp: numOr_def attemptedValue_def split: option.splits)
next
  case True
  have a: "jsLe (mathMin (Fin 1) t) (Fin (s + 1))"
    using jsLe_trans [OF mathMin_lower(1) [of "Fin 1" t], of "Fin (s + 1)"] assms by simp
  have b: "jsLe (mathMin (Fin 0) t) (Fin (s + 1))"
    using jsLe_trans [OF mathMin_lower(1) [of "Fin 0" t], of "Fin (s + 1)"] assms by simp
  show ?thesis
    using True by (simp add: numOr_def attemptedValue_def mathMax_absorb [OF a] mathMax_absorb [OF b])
qed

text \<open>
  Claim C5, as stated, fails where \<open>startMin + 1\<close> is not exact. After the total and the
  end of the interval are set to 9007199254740994 and its start to 9007199254740992 (2
  to the power 53), the attempt to set the end to 5 stores 9007199254740992, the start
  itself, and not \<open>max (startMin + 1) (min 5 totalMinutes) = 9007199254740993\<close>.
\<close>

theorem endMin_edit_rounded:
  "runEvents roundedEvents
   = [\<lparr>headId = ''h1'', headName = ''Head 1'', totalMinutes = Fin 9007199254740994,
       subChannels =
         [\<lparr>subId = ''s1'', subName = ''Sub 1'',
           intervals = [\<lparr>intervalId = ''i1'', startMin = Fin 9007199254740992,
                         endMin = Fin 9007199254740994\<rparr>],
           subExpanded = True\<rparr>],
       headExpanded = True\<rparr>]
   \<and> endMin (intervalAt (handleEvent (EndMinChange 0 0 0 (Some (Fin 5)))
                (runEvents roundedEvents)) 0 0 0) = Fin 9007199254740992
   \<and> Fin 9007199254740992
       \<noteq> mathMax (Fin (9007199254740992 + 1))
           (mathMin (attemptedValue (Some (Fin 5))) (Fin 9007199254740994))"
  by code_simp

text \<open>
  Claim C5, amended. In every state the builder can reach, for a shown interval whose
  \<open>startMin\<close> is at most 2 to the power 53 minus 1 (so that \<open>startMin + 1\<close> is exact), an
  edit of the end to an attempted value \<open>v\<close> (the parsed number, or 1 when parsing
  fails) stores \<open>max (startMin + 1) (min v totalMinutes)\<close> as the \<open>endMin\<close> of that
  interval; in particular, with \<open>startMin = 10\<close> on a head channel of 60 minutes, the
  attempt to set 5 stores 11.
\<close>

theorem endMin_edit_clamped:
  assumes "validPos (runEvents es) hi si ii"
    and "startMin (intervalAt (runEvents es) hi si ii) = Fin s"
    and "s \<le> maxSafeInteger"
  shows "endMin (intervalAt (handleEvent (EndMinChange hi si ii parsed) (runEvents es)) hi si ii)
           = mathMax (Fin (s + 1))
               (mathMin (attemptedValue parsed) (totalMinutes (runEvents es ! hi)))
         \<and> (s = 10 \<and> totalMinutes (runEvents es ! hi) = Fin 60 \<and> attemptedValue parsed = Fin 5
            \<longrightarrow> endMin (intervalAt (handleEvent (EndMinChange hi si ii parsed) (runEvents es))
                   hi si ii) = Fin 11)"
proof -
  have s: "0 \<le> s"
    using okInterval_nth [OF bb_runEvents assms(1)] assms(2) by (simp add: okInterval_def)
  have "endMin (intervalAt (handleEvent (EndMinChange hi si ii parsed) (runEvents es)) hi si ii)
      = mathMax (toNumber (s + 1))
          (mathMin (numOr parsed (Fin 1)) (totalMinutes (runEvents es ! hi)))"
    using assms(1,2)
    by (simp add: onInterval_cases updateInterval_at spreadInterval_def noIntervalUpdates_def
          orKeep_def)
  then have e: "endMin (intervalAt (handleEvent (EndMinChange hi si ii parsed) (runEvents es))
          hi si ii)
      = mathMax (Fin (s + 1))
          (mathMin (attemptedValue parsed) (totalMinutes (runEvents es ! hi)))"
    by (simp only: successor_exact [OF s assms(3)] clamp_any_attempt [OF s])
  show ?thesis unfolding e by (simp add: mathMax_def mathMin_def)
qed

lemma runEvents_sampleEvents: "runEvents sampleEvents = sampleHeads"
  by code_simp

theorem endMin_edit_clamped_witness:
  "validPos (runEvents sampleEvents) 0 0 0
   \<and> runEvents sampleEvents = sampleHeads
   \<and> startMin (intervalAt sampleHeads 0 0 0) = Fin 10 \<and> 10 \<le> maxSafeInteger
   \<and> totalMinutes (sampleHeads ! 0) = Fin 60
   \<and> endMin (intervalAt (handleEvent (EndMinChange 0 0 0 (Some (Fin 5))) sampleHeads) 0 0 0)
       = Fin 11"
proof -
  have v: "validPos (runEvents sampleEvents) 0 0 0"
    by (simp add: runEvents_sampleEvents sampleHeads_def validPos_def)
  have s: "startMin (intervalAt (runEvents sampleEvents) 0 0 0) = Fin 10"
    by (simp add: runEvents_sampleEvents sampleHeads_def intervalAt_def)
  have m: "10 \<le> maxSafeInteger" by (simp add: maxSafeInteger_def)
  have t: "totalMinutes (sampleHeads ! 0) = Fin 60" by (simp add: sampleHeads_def)
  have "endMin (intervalAt (handleEvent (EndMinChange 0 0 0 (Some (Fin 5))) sampleHeads) 0 0 0)
       = Fin 11"
    using endMin_edit_clamped [OF v s m, of "Some (Fin 5)"] t
    by (simp add: runEvents_sampleEvents attemptedValue_def mathMax_def mathMin_def
          del: handleEvent.simps)
  then show ?thesis
    using v s m t by (simp add: runEvents_sampleEvents del: handleEvent.simps)
qed

subsection \<open>Intervals outside their bounds\<close>

text \<open>
  Claim C6. The builder is to keep every interval within \<open>0 \<le> startMin\<close>,
  \<open>startMin + 1 \<le> endMin\<close> and \<open>endMin \<le> totalMinutes\<close>. \<open>addInterval\<close> does not: after a
  head channel of 60 minutes, a sub channel and an interval are added and the end of the
  interval is edited to 60, \<open>addInterval\<close> appends the interval from 60 to 60, of width
  0, although the handlers of both inputs keep a width of 1.
\<close>

theorem addInterval_at_the_end_has_no_width:
  "runEvents [AddHeadClick ''h1'', AddSubClick 0 ''s1'', AddIntervalClick 0 0 ''i1'',
              EndMinChange 0 0 0 (Some (Fin 60)), AddIntervalClick 0 0 ''i2'']
   = [\<lparr>headId = ''h1'', headName = ''Head 1'', totalMinutes = Fin 60,
       subChannels =
         [\<lparr>subId = ''s1'', subName = ''Sub 1'',
           intervals = [\<lparr>intervalId = ''i1'', startMin = Fin 0, endMin = Fin 60\<rparr>,
                        \<lparr>intervalId = ''i2'', startMin = Fin 60, endMin = Fin 60\<rparr>],
           subExpanded = True\<rparr>],
       headExpanded = True\<rparr>]
   \<and> \<not> allValid (runEvents [AddHeadClick ''h1'', AddSubClick 0 ''s1'',
              AddIntervalClick 0 0 ''i1'', EndMinChange 0 0 0 (Some (Fin 60)),
              AddIntervalClick 0 0 ''i2''])"
  by code_simp

text \<open>An edit of the end of that interval then stores 61, beyond the head channel.\<close>

lemma edit_after_addInterval_leaves_the_head:
  "intervalAt (runEvents [AddHeadClick ''h1'', AddSubClick 0 ''s1'',
       AddIntervalClick 0 0 ''i1'', EndMinChange 0 0 0 (Some (Fin 60)),
       AddIntervalClick 0 0 ''i2'', EndMinChange 0 0 1 (Some (Fin 60))]) 0 0 1
   = \<lparr>intervalId = ''i2'', startMin = Fin 60, endMin = Fin 61\<rparr>"
  by code_simp

text \<open>The handler of the \<open>totalMinutes\<close> input stores the new total and leaves the
  intervals as they are: an interval can then end after its head channel.\<close>

lemma total_edit_leaves_interval_outside:
  "runEvents [AddHeadClick ''h1'', AddSubClick 0 ''s1'', AddIntervalClick 0 0 ''i1'',
              TotalMinutesChange 0 (Some (Fin 3))]
   = [\<lparr>headId = ''h1'', headName = ''Head 1'', totalMinutes = Fin 3,
       subChannels =
         [\<lparr>subId = ''s1'', subName = ''Sub 1'',
           intervals = [\<lparr>intervalId = ''i1'', startMin = Fin 0, endMin = Fin 5\<rparr>],
           subExpanded = True\<rparr>],
       headExpanded = True\<rparr>]"
  by code_simp

text \<open>Rounding in \<open>addInterval\<close>: from 2 to the power 53, \<open>lastEnd + 5\<close> is
  9007199254740996.\<close>

lemma addInterval_sum_rounded: "jsPlus (Fin 9007199254740992) 5 = Fin 9007199254740996"
  by code_simp

text \<open>The largest double is 2 to the power 1024 minus 2 to the power 971; half a step
  above it the rounding gives an infinity.\<close>

lemma toNumber_overflow:
  "toNumber (2 ^ 1024 - 2 ^ 970 - 1) = Fin (2 ^ 1024 - 2 ^ 971)
   \<and> toNumber (2 ^ 1024 - 2 ^ 970) = PosInf"
  by code_simp

subsection \<open>Ids that are not there\<close>

lemma no_head:
  "\<not> hasHead hcs hid \<Longrightarrow> h \<in> set hcs \<Longrightarrow> headId h \<noteq> hid"
  by (auto simp: hasHead_def list_ex_iff)

lemma no_sub:
  "\<not> hasSub hcs hid sid \<Longrightarrow> h \<in> set hcs \<Longrightarrow> headId h = hid \<Longrightarrow> s \<in> set (subChannels h)
   \<Longrightarrow> subId s \<noteq> sid"
  by (auto simp: hasSub_def list_ex_iff)

lemma no_interval:
  "\<not> hasInterval hcs hid sid iid \<Longrightarrow> h \<in> set hcs \<Longrightarrow> headId h = hid \<Longrightarrow>
   s \<in> set (subChannels h) \<Longrightarrow> subId s = sid \<Longrightarrow> i \<in> set (intervals s) \<Longrightarrow> intervalId i \<noteq> iid"
  by (auto simp: hasInterval_def list_ex_iff)

lemma hasSub_hasHead: "hasSub hcs hid sid \<Longrightarrow> hasHead hcs hid"
  by (auto simp: hasSub_def hasHead_def list_ex_iff)

lemma hasInterval_hasSub: "hasInterval hcs hid sid iid \<Longrightarrow> hasSub hcs hid sid"
  by (auto simp: hasSub_def hasInterval_def list_ex_iff)

lemma head_ops_noop:
  assumes "\<not> hasHead hcs hid"
  shows "addSubChannel hid fresh hcs = hcs" and "updateHeadChannel hid hu hcs = hcs"
  unfolding addSubChannel_def updateHeadChannel_def
  by (rule map_idI, simp add: no_head [OF assms])+

lemma sub_ops_noop:
  assumes "\<not> hasSub hcs hid sid"
  shows "deleteSubChannel hid sid hcs = hcs" and "updateSubChannel hid sid su hcs = hcs"
    and "addInterval hid sid fresh hcs = hcs"
proof -
  have keep: "\<And>h g. h \<in> set hcs \<Longrightarrow> headId h = hid \<Longrightarrow>
      map (\<lambda>s. if subId s \<noteq> sid then s else g s) (subChannels h) = subChannels h"
    by (rule map_idI) (simp add: no_sub [OF assms])
  have keep': "\<And>h g. h \<in> set hcs \<Longrightarrow> headId h = hid \<Longrightarrow>
      map (\<lambda>s. if subId s = sid then g s else s) (subChannels h) = subChannels h"
    by (rule map_idI) (simp add: no_sub [OF assms])
  have filt: "\<And>h. h \<in> set hcs \<Longrightarrow> headId h = hid \<Longrightarrow>
      filter (\<lambda>s. subId s \<noteq> sid) (subChannels h) = subChannels h"
    by (rule filter_True) (simp add: no_sub [OF assms])
  show "deleteSubChannel hid sid hcs = hcs"
    unfolding deleteSubChannel_def by (rule map_idI) (simp add: filt)
  show "updateSubChannel hid sid su hcs = hcs"
    unfolding updateSubChannel_def by (rule map_idI) (simp add: keep')
  show "addInterval hid sid fresh hcs = hcs"
    unfolding addInterval_def by (rule map_idI) (simp add: keep)
qed

lemma interval_ops_noop:
  assumes "\<not> hasInterval hcs hid sid iid"
  shows "deleteInterval hid sid iid hcs = hcs" and "updateInterval hid sid iid iu hcs = hcs"
proof -
  have m: "\<And>h s g. h \<in> set hcs \<Longrightarrow> headId h = hid \<Longrightarrow> s \<in> set (subChannels h) \<Longrightarrow>
      subId s = sid \<Longrightarrow>
      map (\<lambda>i. if intervalId i = iid then g i else i) (intervals s) = intervals s"
    by (rule map_idI) (simp add: no_interval [OF assms])
  have f: "\<And>h s. h \<in> set hcs \<Longrightarrow> headId h = hid \<Longrightarrow> s \<in> set (subChannels h) \<Longrightarrow>
      subId s = sid \<Longrightarrow> filter (\<lambda>i. intervalId i \<noteq> iid) (intervals s) = intervals s"
    by (rule filter_True) (simp add: no_interval [OF assms])
  have ms: "\<And>h. h \<in> set hcs \<Longrightarrow> headId h = hid \<Longrightarrow>
      map (\<lambda>s. if subId s \<noteq> sid then s
               else s\<lparr>intervals := map (\<lambda>i. if intervalId i = iid then spreadInterval i iu else i)
                      (intervals s)\<rparr>) (subChannels h) = subChannels h"
    by (rule map_idI) (simp add: m)
  have fs: "\<And>h. h \<in> set hcs \<Longrightarrow> headId h = hid \<Longrightarrow>
      map (\<lambda>s. if subId s \<noteq> sid then s
               else s\<lparr>intervals := filter (\<lambda>i. intervalId i \<noteq> iid) (intervals s)\<rparr>)
        (subChannels h) = subChannels h"
    by (rule map_idI) (simp add: f)
  show "deleteInterval hid sid iid hcs = hcs"
    unfolding deleteInterval_def by (rule map_idI) (simp add: fs)
  show "updateInterval hid sid iid iu hcs = hcs"
    unfolding updateInterval_def by (rule map_idI) (simp add: ms)
qed

text \<open>
  Claim C7. An operation of the builder whose head id is not in the collection, or whose
  sub id is not in a head channel of that id, or whose interval id is not in a sub channel
  of those ids, returns the collection unchanged: \<open>addSubChannel\<close>,
  \<open>deleteSubChannel\<close>, \<open>updateSubChannel\<close>, \<open>addInterval\<close>, \<open>deleteInterval\<close>,
  \<open>updateInterval\<close> and \<open>updateHeadChannel\<close>, each for the ids it takes.
\<close>

theorem missing_id_noop:
  "(\<not> hasHead hcs hid \<longrightarrow>
      addSubChannel hid fresh hcs = hcs \<and> deleteSubChannel hid sid hcs = hcs
      \<and> updateSubChannel hid sid su hcs = hcs \<and> addInterval hid sid fresh hcs = hcs
      \<and> deleteInterval hid sid iid hcs = hcs \<and> updateInterval hid sid iid iu hcs = hcs
      \<and> updateHeadChannel hid hu hcs = hcs)
   \<and> (\<not> hasSub hcs hid sid \<longrightarrow>
      deleteSubChannel hid sid hcs = hcs \<and> updateSubChannel hid sid su hcs = hcs
      \<and> addInterval hid sid fresh hcs = hcs \<and> deleteInterval hid sid iid hcs = hcs
      \<and> updateInterval hid sid iid iu hcs = hcs)
   \<and> (\<not> hasInterval hcs hid sid iid \<longrightarrow>
      deleteInterval hid sid iid hcs = hcs \<and> updateInterval hid sid iid iu hcs = hcs)"
  using head_ops_noop [of hcs hid] sub_ops_noop [of hcs hid sid]
    interval_ops_noop [of hcs hid sid iid] hasSub_hasHead [of hcs hid sid]
    hasInterval_hasSub [of hcs hid sid iid]
  by blast

theorem missing_id_noop_witness:
  "\<not> hasHead sampleHeads ''zz'' \<and> addSubChannel ''zz'' ''n1'' sampleHeads = sampleHeads
   \<and> updateHeadChannel ''zz'' (noHeadUpdates\<lparr>newTotalMinutes := Some (Fin 5)\<rparr>) sampleHeads
       = sampleHeads
   \<and> hasHead sampleHeads ''h1'' \<and> \<not> hasSub sampleHeads ''h1'' ''zz''
   \<and> addInterval ''h1'' ''zz'' ''n1'' sampleHeads = sampleHeads
   \<and> deleteSubChannel ''h1'' ''zz'' sampleHeads = sampleHeads
   \<and> hasSub sampleHeads ''h1'' ''s1'' \<and> \<not> hasInterval sampleHeads ''h1'' ''s1'' ''zz''
   \<and> deleteInterval ''h1'' ''s1'' ''zz'' sampleHeads = sampleHeads
   \<and> updateInterval ''h1'' ''s1'' ''zz'' (noIntervalUpdates\<lparr>newEndMin := Some (Fin 7)\<rparr>)
         sampleHeads
       = sampleHeads"
proof -
  have a: "\<not> hasHead sampleHeads ''zz''" and a': "hasHead sampleHeads ''h1''"
    and b: "\<not> hasSub sampleHeads ''h1'' ''zz''" and b': "hasSub sampleHeads ''h1'' ''s1''"
    and c: "\<not> hasInterval sampleHeads ''h1'' ''s1'' ''zz''"
    by (simp_all add: sampleHeads_def hasHead_def hasSub_def hasInterval_def)
  show ?thesis
    using a a' b b' c
      missing_id_noop [of sampleHeads "''zz''" "''n1''" "''s1''" noSubUpdates "''i1''"
        noIntervalUpdates "noHeadUpdates\<lparr>newTotalMinutes := Some (Fin 5)\<rparr>"]
      missing_id_noop [of sampleHeads "''h1''" "''n1''" "''zz''" noSubUpdates "''i1''"
        noIntervalUpdates noHeadUpdates]
      missing_id_noop [of sampleHeads "''h1''" "''n1''" "''s1''" noSubUpdates "''zz''"
        "noIntervalUpdates\<lparr>newEndMin := Some (Fin 7)\<rparr>" noHeadUpdates]
    by simp
qed

section \<open>Properties of the clock-based builder\<close>

subsection \<open>Minutes and clock texts\<close>

lemma isDigit_digitChar: "d < 10 \<Longrightarrow> isDigit (digitChar d)"
  by (simp add: isDigit_def digitChar_def)

lemma digitValue_digitChar: "d < 10 \<Longrightarrow> (of_char (digitChar d) :: nat) - 48 = d"
  by (simp add: digitChar_def)

lemma natToString_digits: "list_all isDigit (natToString n)"
proof (induction n rule: natToString.induct)
  case (1 n)
  show ?case
  proof (cases "n < 10")
    case True
    then show ?thesis by (subst natToString.simps) (simp add: isDigit_digitChar)
  next
    case False
    then show ?thesis
      using "1.IH" by (subst natToString.simps) (simp add: isDigit_digitChar)
  qed
qed

lemma natToString_nonempty: "natToString n \<noteq> []"
  by (subst natToString.simps) simp

lemma digitsValue_snoc:
  "digitsValue (s @ [c]) = 10 * digitsValue s + ((of_char c :: nat) - 48)"
  by (simp add: digitsValue_def)

lemma digitsValue_natToString: "digitsValue (natToString n) = n"
proof (induction n rule: natToString.induct)
  case (1 n)
  show ?case
  proof (cases "n < 10")
    case True
    then show ?thesis
      by (subst natToString.simps) (simp add: digitsValue_def digitValue_digitChar)
  next
    case False
    then have "digitsValue (natToString n)
        = 10 * digitsValue (natToString (n div 10)) + (n mod 10)"
      by (subst natToString.simps) (simp add: digitsValue_snoc digitValue_digitChar)
    then show ?thesis using "1.IH" False by simp
  qed
qed

lemma digitsValue_zeros: "digitsValue (replicate k CHR ''0'' @ s) = digitsValue s"
proof (induction k)
  case 0
  show ?case by simp
next
  case (Suc k)
  have "digitsValue (CHR ''0'' # t) = digitsValue t" for t
    by (simp add: digitsValue_def)
  then show ?case using Suc by simp
qed

lemma zeros_digits: "list_all isDigit (replicate k CHR ''0'')"
  by (induction k) (simp_all add: isDigit_def)

lemma padded_digits: "list_all isDigit (padStart 2 CHR ''0'' (natToString n))"
  by (simp add: padStart_def natToString_digits zeros_digits)

lemma padded_nonempty: "padStart 2 CHR ''0'' (natToString n) \<noteq> []"
  by (simp add: padStart_def natToString_nonempty)

lemma jsNumber_padded: "jsNumber (padStart 2 CHR ''0'' (natToString n)) = Some (int n)"
proof -
  have v: "digitsValue (padStart 2 CHR ''0'' (natToString n)) = n"
    by (simp add: padStart_def digitsValue_zeros digitsValue_natToString)
  show ?thesis
    using padded_digits [of n] padded_nonempty [of n] v
    by (cases "padStart 2 CHR ''0'' (natToString n)") (simp_all add: jsNumber_def)
qed

lemma digit_not_colon: "isDigit c \<Longrightarrow> c \<noteq> CHR '':''"
  by (auto simp: isDigit_def)

lemma splitOn_no_sep: "c \<notin> set s \<Longrightarrow> splitOn c s = [s]"
  by (induction s) auto

lemma splitOn_first: "c \<notin> set a \<Longrightarrow> splitOn c (a @ c # b) = a # splitOn c b"
  by (induction a) auto

lemma splitOn_two:
  "list_all isDigit a \<Longrightarrow> list_all isDigit b \<Longrightarrow> splitOn CHR '':'' (a @ '':'' @ b) = [a, b]"
proof -
  assume a: "list_all isDigit a" and b: "list_all isDigit b"
  have "CHR '':'' \<notin> set a" "CHR '':'' \<notin> set b"
    using a b digit_not_colon by (auto simp: list_all_iff)
  then show ?thesis by (simp add: splitOn_first splitOn_no_sep)
qed

lemma minutesToTime_shape:
  assumes "0 \<le> m" and "m < 1440"
  shows "minutesToTime (Some m)
     = padStart 2 CHR ''0'' (natToString (nat (m div 60))) @ '':''
       @ padStart 2 CHR ''0'' (natToString (nat (m mod 60)))"
proof -
  have h: "0 \<le> m div 60" "m div 60 < 24" "0 \<le> m mod 60" using assms by presburger+
  have "jsRem (m div 60) 24 = m div 60"
    using h by (cases "m div 60 = 0") (simp_all add: jsRem_def)
  moreover have "jsRem m 60 = m mod 60"
    using assms by (cases "m = 0") (simp_all add: jsRem_def)
  ultimately show ?thesis
    using h by (simp add: minutesToTime_def numToString_def Let_def not_less [symmetric])
qed

text \<open>
  Claim C10. In the clock-based builder, minutes written as a clock text and read back
  are the same minutes on the range of a day: for every \<open>m\<close> with \<open>0 \<le> m < 1440\<close>,
  \<open>timeToMinutes (minutesToTime m) = m\<close>.
\<close>

theorem minutes_time_roundtrip:
  assumes "0 \<le> m" and "m < 1440"
  shows "timeToMinutes (minutesToTime (Some m)) = Some m"
proof -
  have "map jsNumber (splitOn CHR '':'' (minutesToTime (Some m)))
      = [Some (int (nat (m div 60))), Some (int (nat (m mod 60)))]"
    unfolding minutesToTime_shape [OF assms]
    by (simp only: splitOn_two [OF padded_digits padded_digits] list.map jsNumber_padded)
  moreover have "int (nat (m div 60)) * 60 + int (nat (m mod 60)) = m"
  proof -
    have "0 \<le> m div 60" "0 \<le> m mod 60" using assms by presburger+
    then show ?thesis by simp
  qed
  ultimately show ?thesis
    by (simp add: timeToMinutes_def numAdd_def numMul_def)
qed

theorem minutes_time_roundtrip_witness:
  "(0::int) \<le> 450 \<and> (450::int) < 1440 \<and> minutesToTime (Some 450) = ''07:30''
   \<and> timeToMinutes ''07:30'' = Some 450"
proof -
  have t: "minutesToTime (Some 450) = ''07:30''" by code_simp
  show ?thesis using minutes_time_roundtrip [of 450] by (simp add: t)
qed

lemma roundtrip_wraps_at_a_day: "timeToMinutes (minutesToTime (Some 1440)) = Some 0"
  by code_simp

subsection \<open>Net duration\<close>

lemma numMax0_floored:
  "getDurationMinutes a b = flooredDuration a b"
  by (auto simp: getDurationMinutes_def flooredDuration_def numMax_def split: option.splits)

lemma numAdd_assoc: "numAdd (numAdd a b) c = numAdd a (numAdd b c)"
  by (simp add: numAdd_def split: option.splits)

lemma numAdd_zero: "numAdd (Some 0) a = a" "numAdd a (Some 0) = a"
  by (simp_all add: numAdd_def split: option.splits)

lemma foldl_numAdd: "foldl (\<lambda>acc x. numAdd acc (f x)) a xs = numAdd a (numSum (map f xs))"
proof (induction xs arbitrary: a)
  case Nil
  show ?case by (simp add: numSum_def numAdd_zero)
next
  case (Cons x xs)
  show ?case using Cons [of "numAdd a (f x)"] by (simp add: numSum_def numAdd_assoc)
qed

lemma reduce_sum: "foldl (\<lambda>acc x. numAdd acc (f x)) (Some 0) xs = numSum (map f xs)"
  by (simp add: foldl_numAdd numAdd_zero)

lemma positive_floor:
  "\<not> numLe d (Some 0) \<Longrightarrow> numMax (Some 0) d = d"
  by (auto simp: numLe_def numMax_def split: option.splits)

text \<open>
  Claim C8, as stated, fails for the visualization: it returns \<open>null\<close> for a head channel
  whose duration is at most 0 and computes no net value for it. For the head channel
  from 14:00 to 07:00 with a cutoff from 09:00 to 09:30, \<open>getHeadSummary\<close> gives the net
  duration -30 and the visualization gives nothing.
\<close>

theorem visualization_skips_reversed_head:
  "getHeadSummary reversedClockHead
     = \<lparr>totalMins = Some 0, cutoffMins = Some 30, netMins = Some (- 30)\<rparr>
   \<and> netOperationalMins reversedClockHead = None
   \<and> netOperationalMins reversedClockHead
       \<noteq> Some (netMins (getHeadSummary reversedClockHead))"
  by code_simp

text \<open>
  Claim C8, amended. In the clock-based builder with cutoff timers, \<open>getHeadSummary\<close>
  returns the total duration of the head channel (from its start to its end, floored at
  0), the sum over the sub channels flagged \<open>isCutoff\<close> of the durations of all their
  intervals (each floored at 0), and as \<open>netMins\<close> the first minus the second; the
  visualization returns \<open>null\<close> for a head channel whose duration, its end minus its
  start, is at most 0, and for every other head channel it computes that same net
  value.
\<close>

theorem net_duration_subtracts_cutoff:
  "totalMins (getHeadSummary head) = flooredDuration (headStartTime head) (headEndTime head)
   \<and> cutoffMins (getHeadSummary head)
       = numSum (map (\<lambda>s. numSum (map (\<lambda>i. flooredDuration (startTime i) (endTime i))
                                     (clockIntervals s)))
                  (filter cutoffFlag (clockSubChannels head)))
   \<and> netMins (getHeadSummary head)
       = numSub (totalMins (getHeadSummary head)) (cutoffMins (getHeadSummary head))
   \<and> netMins (getHeadSummary head) = netDuration head
   \<and> netOperationalMins head
       = (if numLe (numSub (timeToMinutes (headEndTime head)) (timeToMinutes (headStartTime head)))
               (Some 0)
          then None else Some (netMins (getHeadSummary head)))"
proof -
  have c: "cutoffMins (getHeadSummary head)
       = numSum (map (\<lambda>s. numSum (map (\<lambda>i. flooredDuration (startTime i) (endTime i))
                                     (clockIntervals s)))
                  (filter cutoffFlag (clockSubChannels head)))"
    by (simp add: getHeadSummary_def Let_def reduce_sum numMax0_floored)
  have t: "totalMins (getHeadSummary head)
       = flooredDuration (headStartTime head) (headEndTime head)"
    by (simp add: getHeadSummary_def Let_def numMax0_floored)
  have n: "netMins (getHeadSummary head)
       = numSub (totalMins (getHeadSummary head)) (cutoffMins (getHeadSummary head))"
    by (simp add: getHeadSummary_def Let_def)
  have v: "netOperationalMins head
       = (if numLe (numSub (timeToMinutes (headEndTime head)) (timeToMinutes (headStartTime head)))
               (Some 0)
          then None else Some (netMins (getHeadSummary head)))"
    by (simp add: netOperationalMins_def getHeadSummary_def Let_def getDurationMinutes_def
          positive_floor)
  show ?thesis using c t n v by (simp add: netDuration_def)
qed

theorem net_duration_subtracts_cutoff_witness:
  "getHeadSummary sampleClockHead
     = \<lparr>totalMins = Some 420, cutoffMins = Some 45, netMins = Some 375\<rparr>
   \<and> netDuration sampleClockHead = Some 375
   \<and> netOperationalMins sampleClockHead = Some (Some 375)"
proof -
  have s: "getHeadSummary sampleClockHead
     = \<lparr>totalMins = Some 420, cutoffMins = Some 45, netMins = Some 375\<rparr>"
    by code_simp
  have d: "\<not> numLe (numSub (timeToMinutes (headEndTime sampleClockHead))
                 (timeToMinutes (headStartTime sampleClockHead))) (Some 0)"
    by code_simp
  from net_duration_subtracts_cutoff [of sampleClockHead]
  have a: "netMins (getHeadSummary sampleClockHead) = netDuration sampleClockHead"
    and b: "netOperationalMins sampleClockHead
       = (if numLe (numSub (timeToMinutes (headEndTime sampleClockHead))
                      (timeToMinutes (headStartTime sampleClockHead))) (Some 0)
          then None else Some (netMins (getHeadSummary sampleClockHead)))"
    by blast+
  have "netDuration sampleClockHead = Some 375" using a by (simp add: s)
  moreover have "netOperationalMins sampleClockHead = Some (Some 375)" using b d by (simp add: s)
  ultimately show ?thesis using s by simp
qed

section \<open>Properties of the live stopwatch\<close>

text \<open>
  Claim C4. When \<open>toggleHeadChannel\<close> pauses a running head channel, every running sub
  channel of that head channel stops running and gets exactly one more mark, a \<open>pause\<close>
  whose head time is the elapsed time of the head channel at the moment of the pause
  (the same for all of them); the sub channels that were not running are unchanged; and
  when it starts a head channel that was not running, the sub channels are unchanged.
\<close>

theorem head_pause_cascades:
  assumes "n < length heads" and "timerId (heads ! n) = hid"
  shows "(running (heads ! n) \<longrightarrow>
            \<not> running (toggleHeadChannel now hid heads ! n)
            \<and> length (liveSubChannels (toggleHeadChannel now hid heads ! n))
                = length (liveSubChannels (heads ! n))
            \<and> (\<forall>k < length (liveSubChannels (heads ! n)).
                  (running (liveSubChannels (heads ! n) ! k) \<longrightarrow>
                     \<not> running (liveSubChannels (toggleHeadChannel now hid heads ! n) ! k)
                     \<and> subMarks (liveSubChannels (toggleHeadChannel now hid heads ! n) ! k)
                         = subMarks (liveSubChannels (heads ! n) ! k)
                           @ [\<lparr>action = Pause, headTimeMs = getElapsedMs now (heads ! n)\<rparr>])
                  \<and> (\<not> running (liveSubChannels (heads ! n) ! k) \<longrightarrow>
                       liveSubChannels (toggleHeadChannel now hid heads ! n) ! k
                         = liveSubChannels (heads ! n) ! k)))
         \<and> (\<not> running (heads ! n) \<longrightarrow>
              running (toggleHeadChannel now hid heads ! n)
              \<and> liveSubChannels (toggleHeadChannel now hid heads ! n)
                  = liveSubChannels (heads ! n))"
  using assms
  by (simp add: toggleHeadChannel_def toggle_def pauseWithHead_def recordMark_def)

theorem head_pause_cascades_witness:
  "toggleHeadChannel 60000 ''h1'' sampleLiveHeads
   = [\<lparr>timerId = ''h1'', timerName = ''Head 1'', running = False, accumulatedMs = 11000,
       startedAt = None,
       liveSubChannels =
         [\<lparr>timerId = ''s1'', timerName = ''Sub 1'', running = False, accumulatedMs = 8000,
           startedAt = None,
           subMarks = [\<lparr>action = Start, headTimeMs = 3000\<rparr>, \<lparr>action = Pause, headTimeMs = 11000\<rparr>]\<rparr>,
          \<lparr>timerId = ''s2'', timerName = ''Sub 2'', running = False, accumulatedMs = 700,
           startedAt = None,
           subMarks = [\<lparr>action = Start, headTimeMs = 100\<rparr>, \<lparr>action = Pause, headTimeMs = 800\<rparr>]\<rparr>,
          \<lparr>timerId = ''s3'', timerName = ''Sub 3'', running = False, accumulatedMs = 2000,
           startedAt = None,
           subMarks = [\<lparr>action = Start, headTimeMs = 9000\<rparr>, \<lparr>action = Pause, headTimeMs = 11000\<rparr>]\<rparr>]\<rparr>]
   \<and> getElapsedMs 60000 (sampleLiveHeads ! 0) = 11000
   \<and> subMarks (liveSubChannels (toggleHeadChannel 60000 ''h1'' sampleLiveHeads ! 0) ! 2)
       = subMarks (liveSubChannels (sampleLiveHeads ! 0) ! 2)
         @ [\<lparr>action = Pause, headTimeMs = getElapsedMs 60000 (sampleLiveHeads ! 0)\<rparr>]"
proof -
  have l: "0 < length sampleLiveHeads" and i: "timerId (sampleLiveHeads ! 0) = ''h1''"
    and r: "running (sampleLiveHeads ! 0)"
    and k: "2 < length (liveSubChannels (sampleLiveHeads ! 0))"
    and rk: "running (liveSubChannels (sampleLiveHeads ! 0) ! 2)"
    by (simp_all add: sampleLiveHeads_def)
  have e: "toggleHeadChannel 60000 ''h1'' sampleLiveHeads
   = [\<lparr>timerId = ''h1'', timerName = ''Head 1'', running = False, accumulatedMs = 11000,
       startedAt = None,
       liveSubChannels =
         [\<lparr>timerId = ''s1'', timerName = ''Sub 1'', running = False, accumulatedMs = 8000,
           startedAt = None,
           subMarks = [\<lparr>action = Start, headTimeMs = 3000\<rparr>, \<lparr>action = Pause, headTimeMs = 11000\<rparr>]\<rparr>,
          \<lparr>timerId = ''s2'', timerName = ''Sub 2'', running = False, accumulatedMs = 700,
           startedAt = None,
           subMarks = [\<lparr>action = Start, headTimeMs = 100\<rparr>, \<lparr>action = Pause, headTimeMs = 800\<rparr>]\<rparr>,
          \<lparr>timerId = ''s3'', timerName = ''Sub 3'', running = False, accumulatedMs = 2000,
           startedAt = None,
           subMarks = [\<lparr>action = Start, headTimeMs = 9000\<rparr>, \<lparr>action = Pause, headTimeMs = 11000\<rparr>]\<rparr>]\<rparr>]"
    by (simp add: sampleLiveHeads_def toggleHeadChannel_def toggle_def pauseWithHead_def
          recordMark_def getElapsedMs_def openSegmentMs_def)
  have g: "getElapsedMs 60000 (sampleLiveHeads ! 0) = 11000"
    by (simp add: sampleLiveHeads_def getElapsedMs_def openSegmentMs_def)
  from head_pause_cascades [OF l i, of 60000] r k rk
  have "subMarks (liveSubChannels (toggleHeadChannel 60000 ''h1'' sampleLiveHeads ! 0) ! 2)
       = subMarks (liveSubChannels (sampleLiveHeads ! 0) ! 2)
         @ [\<lparr>action = Pause, headTimeMs = getElapsedMs 60000 (sampleLiveHeads ! 0)\<rparr>]"
    by blast
  then show ?thesis using e g by simp
qed

end
